theory Spec2Isabelle
  imports Main "HOL-Library.Word" "HOL-Library.Sublist"
begin

section \<open>Result codes and characters\<close>

text \<open>
  The library returns \<^verbatim>\<open>int\<close> result codes: \<^verbatim>\<open>EOK\<close> (0) or an \<^verbatim>\<open>errno\<close> value.
  The numbers are those of Linux (asm-generic/errno-base.h, errno.h).
\<close>

abbreviation EOK :: int where "EOK \<equiv> 0"
abbreviation ENOENT :: int where "ENOENT \<equiv> 2"
abbreviation EIO :: int where "EIO \<equiv> 5"
abbreviation EBADF :: int where "EBADF \<equiv> 9"
abbreviation ENOMEM :: int where "ENOMEM \<equiv> 12"
abbreviation EINVAL :: int where "EINVAL \<equiv> 22"
abbreviation EMSGSIZE :: int where "EMSGSIZE \<equiv> 90"

abbreviation NUL :: char where "NUL \<equiv> CHR 0x00"
abbreviation NL :: char where "NL \<equiv> CHR 0x0A"

section \<open>C strings and the memory behind a pointer\<close>

text \<open>
  A \<^verbatim>\<open>const char *\<close> to a NUL-terminated string is modelled by the bytes \<open>chars\<close> at the
  pointer, the terminating NUL that follows them, and the bytes \<open>after\<close> that terminator
  (whatever the memory holds there). The string itself ends at the first NUL, which may
  already lie inside \<open>chars\<close>.
\<close>

record cmem =
  chars :: "char list"
  after :: "nat \<Rightarrow> char"

definition c_str :: "char list \<Rightarrow> char list" where
  "c_str s = takeWhile (\<lambda>c. c \<noteq> NUL) s"

text \<open>\<open>peek m i\<close> is the byte \<^verbatim>\<open>p[i]\<close> for the pointer \<^verbatim>\<open>p\<close> that \<open>m\<close> models.\<close>

definition peek :: "cmem \<Rightarrow> nat \<Rightarrow> char" where
  "peek m i =
     (if i < length (chars m) then chars m ! i
      else if i = length (chars m) then NUL
      else after m (i - Suc (length (chars m))))"

text \<open>
  \<^verbatim>\<open>strstr(haystack, needle)\<close> of the C library, on the two strings: the offset of the
  first occurrence of the needle, or \<open>None\<close> for a NULL result. An empty needle is found
  at offset 0.
\<close>

fun strstr :: "char list \<Rightarrow> char list \<Rightarrow> nat option" where
  "strstr [] needle = (if needle = [] then Some 0 else None)"
| "strstr (c # cs) needle =
     (if prefix needle (c # cs) then Some 0 else map_option Suc (strstr cs needle))"

section \<open>IOTCLIENT_GetProperty\<close>

text \<open>
  The caller's buffer \<^verbatim>\<open>buf\<close> is the memory at that pointer, a function from the offset
  to the byte; \<^verbatim>\<open>buf[i] = c\<close> is a function update. The copy loop
  \<^verbatim>\<open>while( i < len ) { if ( p[i] == '\n' || p[i] == '\0' ) { buf[i] = 0; result = EOK; }
  else { buf[i] = p[i]; } i++; }\<close>
  carries \<open>i\<close>, the buffer and the result.
\<close>

function GetProperty_loop ::
  "(nat \<Rightarrow> char) \<Rightarrow> nat \<Rightarrow> nat \<Rightarrow> (nat \<Rightarrow> char) \<Rightarrow> int \<Rightarrow> int \<times> (nat \<Rightarrow> char)" where
  "GetProperty_loop p len i buf result =
     (if i < len then
        (if p i = NL \<or> p i = NUL
         then GetProperty_loop p len (i + 1) (buf(i := NUL)) EOK
         else GetProperty_loop p len (i + 1) (buf(i := p i)) result)
      else (result, buf))"
  by pat_completeness auto
termination
  by (relation "measure (\<lambda>(p, len, i, buf, result). len - i)") auto

declare GetProperty_loop.simps [simp del]

text \<open>
  \<open>None\<close> is a NULL argument. The result is the return code and the buffer afterwards.
  \<^verbatim>\<open>strlen(property)\<close> and \<^verbatim>\<open>strstr( headers, property )\<close> see the two strings;
  \<^verbatim>\<open>p[plen]\<close> and the loop's \<^verbatim>\<open>p[i]\<close> read the memory at \<^verbatim>\<open>headers\<close>.
\<close>

definition IOTCLIENT_GetProperty ::
  "cmem option \<Rightarrow> char list option \<Rightarrow> (nat \<Rightarrow> char) option \<Rightarrow> nat
     \<Rightarrow> int \<times> (nat \<Rightarrow> char) option" where
  "IOTCLIENT_GetProperty headers property buf len =
     (case (headers, property, buf) of
        (Some h, Some prop, Some b) \<Rightarrow>
          if 0 < len then
            (let plen = length (c_str prop) in
             case strstr (c_str (chars h)) (c_str prop) of
               Some k \<Rightarrow>
                 if peek h (k + plen) = CHR '':''
                 then (let (result, b') =
                             GetProperty_loop (\<lambda>i. peek h (k + plen + 1 + i)) len 0 b ENOMEM
                       in (result, Some b'))
                 else (ENOENT, Some b)
             | None \<Rightarrow> (ENOENT, Some b))
          else (EINVAL, Some b)
      | _ \<Rightarrow> (EINVAL, buf))"

text \<open>The words of the specification about header text.\<close>

definition occurs_at :: "char list \<Rightarrow> char list \<Rightarrow> nat \<Rightarrow> bool" where
  "occurs_at hs nm k = (k + length nm \<le> length hs \<and> take (length nm) (drop k hs) = nm)"

definition property_value :: "char list \<Rightarrow> nat \<Rightarrow> char list" where
  "property_value hs off = takeWhile (\<lambda>c. c \<noteq> NL) (drop off hs)"

section \<open>The client handle\<close>

text \<open>
  \<^verbatim>\<open>struct IotClient\<close>. Descriptors are \<^verbatim>\<open>int\<close>s (\<open>-1\<close> is the invalid descriptor), sizes are
  naturals, a pointer field is \<open>None\<close> when NULL. A buffer is the list of the bytes of
  its block; \<open>fifoName\<close> is the string it points to. The functions below leave out the
  calls of \<^verbatim>\<open>iotclient_log\<close>, which print a line when \<open>verbose\<close> is set and do nothing else.
\<close>

record IotClient =
  msgQ :: int
  verbose :: bool
  txMsgQ :: int
  rxMsgQ :: int
  maxMessageSize :: nat
  txBuf :: "char list option"
  rxBuf :: "char list option"
  rxBufSize :: nat
  pid :: "32 word"
  fifoName :: "char list option"

text \<open>The outcome of a system call: it fails with an \<^verbatim>\<open>errno\<close>, or returns.\<close>

datatype 'a syscall = Failed int | Returned 'a

definition MAX_IOT_MSG_SIZE :: nat where
  "MAX_IOT_MSG_SIZE = 256 * 1024 * 1024"

text \<open>\<^verbatim>\<open>BUFSIZ\<close> of stdio.h (8192 in glibc) and the largest \<^verbatim>\<open>size_t\<close> (64 bits).\<close>

definition BUFSIZ :: nat where
  "BUFSIZ = 8192"

definition SIZE_MAX :: nat where
  "SIZE_MAX = 2 ^ 64 - 1"

text \<open>\<^verbatim>\<open>a - b\<close> on \<^verbatim>\<open>size_t\<close>: it wraps around below zero.\<close>

definition size_t_sub :: "nat \<Rightarrow> nat \<Rightarrow> nat" where
  "size_t_sub a b = nat ((int a - int b) mod 2 ^ 64)"

text \<open>
  \<^verbatim>\<open>memcpy(&dst[off], src, length src)\<close> on a block. A copy that runs past the end of
  the block lands in the memory behind it, which the list then includes.
\<close>

definition memcpy :: "char list \<Rightarrow> nat \<Rightarrow> char list \<Rightarrow> char list" where
  "memcpy dst off src = take off dst @ src @ drop (off + length src) dst"

section \<open>IOTCLIENT_Receive\<close>

text \<open>
  \<^verbatim>\<open>mq_receive( rxMsgQ, rxBuf, rxBufSize, &prio )\<close>: what the queue does is a parameter
  (it fails, or delivers a message). A message longer than the buffer offered is
  refused with \<^verbatim>\<open>EMSGSIZE\<close>, as POSIX has it.
\<close>

definition mq_receive :: "char list syscall \<Rightarrow> nat \<Rightarrow> char list syscall" where
  "mq_receive delivery msg_len =
     (case delivery of
        Failed e \<Rightarrow> Failed e
      | Returned msg \<Rightarrow> if length msg \<le> msg_len then Returned msg else Failed EMSGSIZE)"

text \<open>
  The four out-parameters after the call. A pointer into \<^verbatim>\<open>rxBuf\<close> is its offset there
  (\<open>None\<close> for NULL).
\<close>

record rx_views =
  ppHeader :: "nat option"
  pHeaderLength :: nat
  ppBody :: "nat option"
  pBodyLength :: nat

text \<open>The bytes a caller sees at a pointer into a block, given a length.\<close>

definition view :: "char list \<Rightarrow> nat option \<Rightarrow> nat \<Rightarrow> char list" where
  "view block ptr len = (case ptr of None \<Rightarrow> [] | Some off \<Rightarrow> take len (drop off block))"

text \<open>
  \<open>outs\<close> says that the four out-pointers are all non-NULL; \<open>errno0\<close> is \<^verbatim>\<open>errno\<close> before
  the call (returned when a message of length 0 arrives). The result is the return code,
  the handle afterwards and the out-parameters when they are written. The whole result is
  \<open>None\<close> when \<^verbatim>\<open>strstr\<close> is called on a buffer that holds no NUL: it then reads past
  the end of the block, which C leaves undefined. The \<^verbatim>\<open>printf\<close> calls of the function
  write to standard output only and are left out.
\<close>

definition IOTCLIENT_Receive ::
  "IotClient option \<Rightarrow> bool \<Rightarrow> char list syscall \<Rightarrow> int
     \<Rightarrow> (int \<times> IotClient option \<times> rx_views option) option" where
  "IOTCLIENT_Receive hIoTClient outs delivery errno0 =
     (case hIoTClient of
        None \<Rightarrow> Some (EINVAL, hIoTClient, None)
      | Some c \<Rightarrow>
          (case rxBuf c of
             None \<Rightarrow> Some (EINVAL, hIoTClient, None)
           | Some buf0 \<Rightarrow>
               if rxMsgQ c \<noteq> - 1 \<and> 0 < rxBufSize c \<and> outs then
                 (case mq_receive delivery (rxBufSize c) of
                    Failed e \<Rightarrow> Some (e, hIoTClient, None)
                  | Returned msg \<Rightarrow>
                      (let n = length msg; buf = memcpy buf0 0 msg in
                       if 0 < n then
                         if NUL \<notin> set buf then None
                         else
                           (case strstr (c_str buf) [NL, NL] of
                              None \<Rightarrow>
                                Some (EOK, Some (c\<lparr>rxBuf := Some buf\<rparr>),
                                  Some \<lparr>ppHeader = None, pHeaderLength = 0,
                                        ppBody = Some 0, pBodyLength = n\<rparr>)
                            | Some k \<Rightarrow>
                                (let buf' = buf[k := NUL]; len = k in
                                 if len < rxBufSize c then
                                   Some (EOK, Some (c\<lparr>rxBuf := Some buf'\<rparr>),
                                     Some \<lparr>ppHeader = Some 0, pHeaderLength = len,
                                           ppBody = Some (k + 2),
                                           pBodyLength = size_t_sub n len\<rparr>)
                                 else
                                   Some (EOK, Some (c\<lparr>rxBuf := Some buf'\<rparr>),
                                     Some \<lparr>ppHeader = Some 0, pHeaderLength = len,
                                           ppBody = None, pBodyLength = 0\<rparr>)))
                       else Some (errno0, Some (c\<lparr>rxBuf := Some buf\<rparr>), None)))
               else Some (EINVAL, hIoTClient, None)))"

section \<open>iotclient_SendHeaders\<close>

text \<open>
  \<^verbatim>\<open>memcpy(&txbuf[4], &(hIoTClient->pid), 4)\<close> copies the four bytes of the \<^verbatim>\<open>pid_t\<close> as
  they lie in memory: least significant byte first on the little-endian hosts the
  library is built for.
\<close>

definition pid_bytes :: "32 word \<Rightarrow> char list" where
  "pid_bytes p = map (\<lambda>i. char_of (unat (drop_bit (8 * i) p))) [0, 1, 2, 3]"

text \<open>
  \<open>mq_send\<close> is what \<^verbatim>\<open>mq_send(q, txbuf, totalLength, 0)\<close> does when it is called. The
  result is the return code, the handle afterwards (its transmit buffer is written) and
  the message put on the queue, if any. \<^verbatim>\<open>len + 8\<close> does not wrap: a string of
  \<open>2 ^ 64 - 8\<close> bytes does not fit the address space.
\<close>

definition iotclient_SendHeaders ::
  "IotClient option \<Rightarrow> char list option \<Rightarrow> unit syscall
     \<Rightarrow> int \<times> IotClient option \<times> char list option" where
  "iotclient_SendHeaders hIoTClient headers mq_send =
     (case (hIoTClient, headers) of
        (Some c, Some hdrs) \<Rightarrow>
          (case txBuf c of
             None \<Rightarrow> (EINVAL, hIoTClient, None)
           | Some txbuf0 \<Rightarrow>
               (let len = length (c_str hdrs); totalLength = len + 8 in
                if totalLength < maxMessageSize c then
                  (let txbuf = memcpy (memcpy (memcpy txbuf0 0 ''IOTC'') 4 (pid_bytes (pid c)))
                                 8 (c_str hdrs);
                       q = txMsgQ c;
                       c' = c\<lparr>txBuf := Some txbuf\<rparr> in
                   if q \<noteq> - 1 then
                     (case mq_send of
                        Returned _ \<Rightarrow> (EOK, Some c', Some (take totalLength txbuf))
                      | Failed e \<Rightarrow> (e, Some c', None))
                   else (EBADF, Some c', None))
                else (EMSGSIZE, hIoTClient, None)))
      | _ \<Rightarrow> (EINVAL, hIoTClient, None))"

section \<open>iotclient_SendBody and iotclient_StreamBody\<close>

text \<open>
  What a call did to the FIFO: the bytes it wrote and whether it left the descriptor it
  opened open.
\<close>

record fifo_io =
  written :: "char list"
  left_open :: bool

text \<open>
  \<open>body\<close> is the memory at the pointer (a function from the offset to the byte).
  \<open>openf\<close> is \<^verbatim>\<open>open( fifoName, O_WRONLY )\<close>; \<open>writef\<close> is the outcome of the one
  \<^verbatim>\<open>write( fd, body, len )\<close>: it fails, or writes some number of bytes. The \<^verbatim>\<open>size_t n\<close>
  that receives \<open>-1\<close> equals \<^verbatim>\<open>len\<close> only for \<^verbatim>\<open>len = SIZE_MAX\<close>, which the size check
  excludes.
\<close>

definition iotclient_SendBody ::
  "IotClient option \<Rightarrow> (nat \<Rightarrow> char) option \<Rightarrow> nat \<Rightarrow> (char list \<Rightarrow> int syscall)
     \<Rightarrow> nat syscall \<Rightarrow> int \<times> fifo_io" where
  "iotclient_SendBody hIoTClient body len openf writef =
     (case (hIoTClient, body) of
        (Some c, Some b) \<Rightarrow>
          (case fifoName c of
             Some name \<Rightarrow>
               (case openf name of
                  Returned fd \<Rightarrow>
                    if len < MAX_IOT_MSG_SIZE then
                      (case writef of
                         Returned n \<Rightarrow>
                           (if n = len then EOK else EIO,
                            \<lparr>written = map b [0..<min n len], left_open = False\<rparr>)
                       | Failed e \<Rightarrow> (e, \<lparr>written = [], left_open = False\<rparr>))
                    else (EMSGSIZE, \<lparr>written = [], left_open = True\<rparr>)
                | Failed e \<Rightarrow> (e, \<lparr>written = [], left_open = False\<rparr>))
           | None \<Rightarrow> (ENOENT, \<lparr>written = [], left_open = False\<rparr>))
      | _ \<Rightarrow> (EINVAL, \<lparr>written = [], left_open = False\<rparr>))"

text \<open>
  The state of the loop of \<^verbatim>\<open>iotclient_StreamBody\<close>: its variables \<^verbatim>\<open>total\<close> and
  \<^verbatim>\<open>bytesLeft\<close>, the memory at \<^verbatim>\<open>buf\<close> (the array of \<^verbatim>\<open>BUFSIZ\<close> bytes and what lies behind
  it), the number of \<^verbatim>\<open>read\<close> calls made and the bytes the FIFO has taken.
\<close>

record stream_state =
  total :: nat
  bytesLeft :: nat
  buf :: "nat \<Rightarrow> char"
  calls :: nat
  piped :: "char list"

definition store :: "(nat \<Rightarrow> char) \<Rightarrow> char list \<Rightarrow> nat \<Rightarrow> char" where
  "store mem d = (\<lambda>i. if i < length d then d ! i else mem i)"

text \<open>
  \<open>src k\<close> is the outcome of the \<open>k\<close>-th \<^verbatim>\<open>read( fd, buf, BUFSIZ )\<close>: an error, or the bytes
  read (at most \<^verbatim>\<open>BUFSIZ\<close> of them are taken; none at the end of the input). \<open>snk k n\<close> is
  the outcome of the \<^verbatim>\<open>write( fd_out, buf, n )\<close> that follows it: an error, or the number
  of bytes the FIFO took. The \<^verbatim>\<open>size_t n\<close> that receives \<open>-1\<close> from \<^verbatim>\<open>read\<close> is
  \<^verbatim>\<open>SIZE_MAX\<close>. The loop ignores what \<^verbatim>\<open>write\<close> returns. Its \<^verbatim>\<open>printf\<close> of the block
  writes to standard output only and is left out. \<^verbatim>\<open>total += n\<close> does not wrap: \<open>n\<close> is at
  most \<^verbatim>\<open>bytesLeft\<close>.

  \<open>StreamBody_iter\<close> is the body of the loop, once: the state it leaves and whether the
  loop goes on (\<open>False\<close> is the \<^verbatim>\<open>break\<close>).
\<close>

definition StreamBody_iter ::
  "(nat \<Rightarrow> char list syscall) \<Rightarrow> (nat \<Rightarrow> nat \<Rightarrow> nat syscall) \<Rightarrow> stream_state
     \<Rightarrow> bool \<times> stream_state" where
  "StreamBody_iter src snk s =
     (let r = src (calls s);
          n0 = (case r of Failed e \<Rightarrow> SIZE_MAX | Returned d \<Rightarrow> length (take BUFSIZ d));
          mem = (case r of Failed e \<Rightarrow> buf s | Returned d \<Rightarrow> store (buf s) (take BUFSIZ d));
          n = (if n0 > bytesLeft s then bytesLeft s else n0);
          taken = (case snk (calls s) n of Failed e \<Rightarrow> 0 | Returned m \<Rightarrow> min m n)
      in if n > 0 then
           (True, \<lparr>total = total s + n, bytesLeft = bytesLeft s - n, buf = mem,
                   calls = calls s + 1, piped = piped s @ map mem [0..<taken]\<rparr>)
         else (False, s\<lparr>buf := mem, calls := calls s + 1\<rparr>))"

function StreamBody_loop ::
  "(nat \<Rightarrow> char list syscall) \<Rightarrow> (nat \<Rightarrow> nat \<Rightarrow> nat syscall) \<Rightarrow> stream_state \<Rightarrow> stream_state" where
  "StreamBody_loop src snk s =
     (if total s < MAX_IOT_MSG_SIZE then
        (case StreamBody_iter src snk s of
           (True, s') \<Rightarrow> StreamBody_loop src snk s'
         | (False, s') \<Rightarrow> s')
      else s)"
  by pat_completeness auto
termination
  by (relation "measure (\<lambda>(src, snk, s). MAX_IOT_MSG_SIZE - total s)")
    (auto simp: StreamBody_iter_def Let_def split: if_splits)

declare StreamBody_loop.simps [simp del]

text \<open>
  The variables as they are declared: \<^verbatim>\<open>size_t total = 0; size_t bytesLeft = MAX_IOT_MSG_SIZE;\<close>
  and \<open>buf0\<close>, the memory at the uninitialised \<^verbatim>\<open>buf\<close>.
\<close>

definition stream_init :: "(nat \<Rightarrow> char) \<Rightarrow> stream_state" where
  "stream_init buf0 =
     \<lparr>total = 0, bytesLeft = MAX_IOT_MSG_SIZE, buf = buf0, calls = 0, piped = []\<rparr>"

text \<open>
  \<open>fd\<close> is the descriptor to read from. The result is the return code and, when the FIFO
  was opened, the loop's final state.
\<close>

definition iotclient_StreamBody ::
  "IotClient option \<Rightarrow> int \<Rightarrow> (char list \<Rightarrow> int syscall) \<Rightarrow> (nat \<Rightarrow> char list syscall)
     \<Rightarrow> (nat \<Rightarrow> nat \<Rightarrow> nat syscall) \<Rightarrow> (nat \<Rightarrow> char) \<Rightarrow> int \<times> stream_state option" where
  "iotclient_StreamBody hIoTClient fd openf src snk buf0 =
     (case hIoTClient of
        Some c \<Rightarrow>
          if fd \<noteq> - 1 then
            (case fifoName c of
               Some name \<Rightarrow>
                 (case openf name of
                    Returned fd_out \<Rightarrow>
                      (EOK, Some (StreamBody_loop src snk (stream_init buf0)))
                  | Failed e \<Rightarrow> (EBADF, None))
             | None \<Rightarrow> (ENOENT, None))
          else (EINVAL, None)
      | None \<Rightarrow> (EINVAL, None))"

text \<open>
  The invariant of the loop, at its head: \<^verbatim>\<open>total\<close> and \<^verbatim>\<open>bytesLeft\<close> add up to the ceiling,
  the FIFO has taken no more than \<^verbatim>\<open>total\<close> bytes, and each \<^verbatim>\<open>read\<close> so far has added at
  least one byte to \<^verbatim>\<open>total\<close>.
\<close>

definition stream_inv :: "stream_state \<Rightarrow> bool" where
  "stream_inv s =
     (total s + bytesLeft s = MAX_IOT_MSG_SIZE \<and> length (piped s) \<le> total s \<and>
      calls s \<le> total s)"

section \<open>Creating and closing a handle\<close>

text \<open>
  What the process holds while handles are created and closed: the live
  \<^verbatim>\<open>struct IotClient\<close> objects by address, the number of other live heap blocks (transmit
  and receive buffers, FIFO names), the open message queue descriptors, the FIFOs in the
  file system, and \<^verbatim>\<open>errno\<close>.
\<close>

record world =
  heap :: "nat \<Rightarrow> IotClient option"
  blocks :: int
  mqds :: "int list"
  fifos :: "char list list"
  errno :: int

text \<open>
  What the system answers during \<^verbatim>\<open>IOTCLIENT_Create\<close>: the address \<^verbatim>\<open>calloc\<close> returns for
  the handle (\<open>None\<close> for NULL), the outcome of \<^verbatim>\<open>mq_open\<close> (a descriptor) and of
  \<^verbatim>\<open>mq_getattr\<close> (the queue's \<^verbatim>\<open>mq_msgsize\<close>), whether \<^verbatim>\<open>calloc\<close> gives a transmit buffer,
  the process id, whether \<^verbatim>\<open>asprintf\<close> succeeds, and the error \<^verbatim>\<open>mkfifo\<close> fails with, if
  it does.
\<close>

record create_env =
  calloc_handle :: "nat option"
  mq_open :: "int syscall"
  mq_getattr :: "nat syscall"
  calloc_txbuf :: bool
  getpid :: "32 word"
  asprintf_ok :: bool
  mkfifo_error :: "int option"

abbreviation EEXIST :: int where "EEXIST \<equiv> 17"

text \<open>\<^verbatim>\<open>mkfifo\<close> and \<^verbatim>\<open>unlink\<close> on the file system of the \<open>world\<close>; \<open>True\<close> is the return of 0.\<close>

definition sys_mkfifo :: "char list \<Rightarrow> int option \<Rightarrow> world \<Rightarrow> bool \<times> world" where
  "sys_mkfifo path err w =
     (if path \<in> set (fifos w) then (False, w\<lparr>errno := EEXIST\<rparr>)
      else case err of
             Some e \<Rightarrow> (False, w\<lparr>errno := e\<rparr>)
           | None \<Rightarrow> (True, w\<lparr>fifos := path # fifos w\<rparr>))"

definition sys_unlink :: "char list \<Rightarrow> world \<Rightarrow> world" where
  "sys_unlink path w =
     (if path \<in> set (fifos w) then w\<lparr>fifos := removeAll path (fifos w)\<rparr>
      else w\<lparr>errno := ENOENT\<rparr>)"

definition sys_mq_close :: "int \<Rightarrow> world \<Rightarrow> world" where
  "sys_mq_close q w =
     (if q \<in> set (mqds w) then w\<lparr>mqds := remove1 q (mqds w)\<rparr> else w\<lparr>errno := EBADF\<rparr>)"

text \<open>The decimal digits that \<^verbatim>\<open>%d\<close> prints.\<close>

fun digits :: "nat \<Rightarrow> char list" where
  "digits n = (if n < 10 then [char_of (48 + n)] else digits (n div 10) @ [char_of (48 + n mod 10)])"

declare digits.simps [simp del]

definition show_int :: "int \<Rightarrow> char list" where
  "show_int i = (if i < 0 then CHR ''-'' # digits (nat (- i)) else digits (nat i))"

text \<open>The object that \<^verbatim>\<open>calloc( 1, sizeof( struct IotClient ) )\<close> returns: all bytes zero.\<close>

definition zero_client :: IotClient where
  "zero_client =
     \<lparr>msgQ = 0, verbose = False, txMsgQ = 0, rxMsgQ = 0, maxMessageSize = 0, txBuf = None,
      rxBuf = None, rxBufSize = 0, pid = 0, fifoName = None\<rparr>"

text \<open>
  The helpers take the handle as the object it points to (\<open>None\<close> for NULL) and return
  it as they leave it.
\<close>

definition iotclient_DestroyFIFO :: "IotClient option \<Rightarrow> world \<Rightarrow> IotClient option \<times> world" where
  "iotclient_DestroyFIFO hIoTClient w =
     (case hIoTClient of
        Some c \<Rightarrow>
          (case fifoName c of
             Some name \<Rightarrow>
               (let w1 = sys_unlink name w
                in (Some (c\<lparr>fifoName := None\<rparr>), w1\<lparr>blocks := blocks w1 - 1\<rparr>))
           | None \<Rightarrow> (hIoTClient, w))
      | None \<Rightarrow> (hIoTClient, w))"

definition iotclient_CreateTxMessageQueue ::
  "IotClient option \<Rightarrow> create_env \<Rightarrow> world \<Rightarrow> int \<times> IotClient option \<times> world" where
  "iotclient_CreateTxMessageQueue hIoTClient env w =
     (case hIoTClient of
        Some c0 \<Rightarrow>
          (case mq_open env of
             Returned q \<Rightarrow>
               (let c = c0\<lparr>txMsgQ := q\<rparr>; w1 = w\<lparr>mqds := q # mqds w\<rparr> in
                case mq_getattr env of
                  Returned msgsize \<Rightarrow>
                    if calloc_txbuf env then
                      (EOK,
                       Some (c\<lparr>maxMessageSize := msgsize, txBuf := Some (replicate msgsize NUL)\<rparr>),
                       w1\<lparr>blocks := blocks w1 + 1\<rparr>)
                    else
                      (ENOMEM, Some (c\<lparr>maxMessageSize := msgsize, txBuf := None, txMsgQ := - 1\<rparr>),
                       sys_mq_close q w1)
                | Failed e \<Rightarrow> (EIO, Some c, w1\<lparr>errno := e\<rparr>))
           | Failed e \<Rightarrow> (e, Some (c0\<lparr>txMsgQ := - 1\<rparr>), w\<lparr>errno := e\<rparr>))
      | None \<Rightarrow> (EINVAL, hIoTClient, w))"

definition iotclient_CreateFIFO ::
  "IotClient option \<Rightarrow> create_env \<Rightarrow> world \<Rightarrow> int \<times> IotClient option \<times> world" where
  "iotclient_CreateFIFO hIoTClient env w =
     (case hIoTClient of
        Some c0 \<Rightarrow>
          (let c = c0\<lparr>pid := getpid env\<rparr> in
           if asprintf_ok env then
             (let name = ''/tmp/iothub_'' @ show_int (sint (pid c));
                  c1 = c\<lparr>fifoName := Some name\<rparr>;
                  w1 = w\<lparr>blocks := blocks w + 1\<rparr>
              in case sys_mkfifo name (mkfifo_error env) w1 of
                   (True, w2) \<Rightarrow> (EOK, Some c1, w2)
                 | (False, w2) \<Rightarrow>
                     (let (h, w3) = iotclient_DestroyFIFO (Some c1) w2 in (errno w3, h, w3)))
           else (EINVAL, Some c, w))
      | None \<Rightarrow> (EINVAL, hIoTClient, w))"

definition iotclient_DestroyTxMessageQueue ::
  "IotClient option \<Rightarrow> world \<Rightarrow> IotClient option \<times> world" where
  "iotclient_DestroyTxMessageQueue hIoTClient w =
     (case hIoTClient of
        Some c \<Rightarrow>
          (let (c1, w1) = (case txBuf c of
                             Some b \<Rightarrow> (c\<lparr>txBuf := None\<rparr>, w\<lparr>blocks := blocks w - 1\<rparr>)
                           | None \<Rightarrow> (c, w))
           in if txMsgQ c1 \<noteq> - 1 then (Some (c1\<lparr>txMsgQ := - 1\<rparr>), sys_mq_close (txMsgQ c1) w1)
              else (Some c1, w1))
      | None \<Rightarrow> (hIoTClient, w))"

definition iotclient_DestroyRxMessageQueue ::
  "IotClient option \<Rightarrow> world \<Rightarrow> IotClient option \<times> world" where
  "iotclient_DestroyRxMessageQueue hIoTClient w =
     (case hIoTClient of
        Some c \<Rightarrow>
          (let (c1, w1) = (case rxBuf c of
                             Some b \<Rightarrow> (c\<lparr>rxBuf := None\<rparr>, w\<lparr>blocks := blocks w - 1\<rparr>)
                           | None \<Rightarrow> (c, w))
           in if rxMsgQ c1 \<noteq> - 1 then (Some (c1\<lparr>rxMsgQ := - 1\<rparr>), sys_mq_close (rxMsgQ c1) w1)
              else (Some c1, w1))
      | None \<Rightarrow> (hIoTClient, w))"

text \<open>
  \<^verbatim>\<open>IOTCLIENT_Create\<close> returns the handle (the address of the object, \<open>None\<close> for NULL).
  The object is live in the heap of the world it returns exactly when the handle is not
  freed.
\<close>

definition IOTCLIENT_Create :: "create_env \<Rightarrow> world \<Rightarrow> nat option \<times> world" where
  "IOTCLIENT_Create env w =
     (case calloc_handle env of
        Some a \<Rightarrow>
          (let (rc, h, w1) = iotclient_CreateTxMessageQueue (Some zero_client) env w;
               (rc, h, w2) =
                 (if rc = EOK then
                    (let (rc, h, w2) = iotclient_CreateFIFO h env w1 in
                     if rc \<noteq> EOK then
                       (let (h, w3) = iotclient_DestroyTxMessageQueue h w2 in (rc, h, w3))
                     else (rc, h, w2))
                  else (rc, h, w1))
           in if rc \<noteq> EOK then (None, w2)
              else (Some a, w2\<lparr>heap := (heap w2)(a := h)\<rparr>))
      | None \<Rightarrow> (None, w))"

text \<open>
  \<^verbatim>\<open>IOTCLIENT_Close\<close> on a handle that is not NULL reads the object and frees it. The
  result is \<open>None\<close> when the object is not live (the handle was freed before): the reads
  and the \<^verbatim>\<open>free\<close> are then on freed memory, which C leaves undefined.
\<close>

definition IOTCLIENT_Close :: "nat option \<Rightarrow> world \<Rightarrow> (int \<times> world) option" where
  "IOTCLIENT_Close hIoTClient w =
     (case hIoTClient of
        Some a \<Rightarrow>
          (case heap w a of
             Some c \<Rightarrow>
               (let (h, w1) = iotclient_DestroyFIFO (Some c) w;
                    (h, w2) = iotclient_DestroyTxMessageQueue h w1;
                    (h, w3) = iotclient_DestroyRxMessageQueue h w2
                in Some (EOK, w3\<lparr>heap := (heap w3)(a := None)\<rparr>))
           | None \<Rightarrow> None)
      | None \<Rightarrow> Some (EINVAL, w))"

text \<open>Two worlds in which the process holds the same resources (\<^verbatim>\<open>errno\<close> may differ).\<close>

definition same_resources :: "world \<Rightarrow> world \<Rightarrow> bool" where
  "same_resources w w' =
     (heap w' = heap w \<and> blocks w' = blocks w \<and> mqds w' = mqds w \<and> fifos w' = fifos w)"

section \<open>Example inputs\<close>

text \<open>
  A handle with a receiver: queue descriptor 3 and a zeroed receive buffer of 16 bytes, as
  \<^verbatim>\<open>IOTCLIENT_CreateReceiver\<close> with \<^verbatim>\<open>size = 16\<close> leaves it.
\<close>

definition rx16 :: IotClient where
  "rx16 = zero_client\<lparr>rxMsgQ := 3, rxBuf := Some (replicate 16 NUL), rxBufSize := 16\<rparr>"

text \<open>
  A handle as \<^verbatim>\<open>IOTCLIENT_Create\<close> leaves it for process 1234 on a control queue (descriptor
  3) whose messages hold up to 64 bytes.
\<close>

definition tx64 :: IotClient where
  "tx64 = zero_client\<lparr>txMsgQ := 3, maxMessageSize := 64, txBuf := Some (replicate 64 NUL),
     pid := 1234, fifoName := Some ''/tmp/iothub_1234''\<rparr>"

text \<open>
  A process that holds nothing yet, and a system on which every step of
  \<^verbatim>\<open>IOTCLIENT_Create\<close> succeeds: the handle is allocated at address 1, the control queue
  opens as descriptor 3 with messages of up to 64 bytes, the process id is 1234.
\<close>

definition empty_world :: world where
  "empty_world = \<lparr>heap = \<lambda>a. None, blocks = 0, mqds = [], fifos = [], errno = 0\<rparr>"

definition env_ok :: create_env where
  "env_ok = \<lparr>calloc_handle = Some 1, mq_open = Returned 3, mq_getattr = Returned 64,
     calloc_txbuf = True, getpid = 1234, asprintf_ok = True, mkfifo_error = None\<rparr>"

text \<open>
  A process with one live handle, \<open>tx64\<close> at address 1, whose FIFO is no longer in the file
  system (it was removed from outside).
\<close>

definition live_world :: world where
  "live_world = \<lparr>heap = (\<lambda>a. None)(1 := Some tx64), blocks = 2, mqds = [3],
     fifos = [], errno = 0\<rparr>"

text \<open>\<^verbatim>\<open>IOTCLIENT_Close\<close> called twice on the same handle: both results and the world after.\<close>

definition Close_twice :: "nat option \<Rightarrow> world \<Rightarrow> (int \<times> int \<times> world) option" where
  "Close_twice hIoTClient w =
     (case IOTCLIENT_Close hIoTClient w of
        Some (r1, w1) \<Rightarrow>
          (case IOTCLIENT_Close hIoTClient w1 of
             Some (r2, w2) \<Rightarrow> Some (r1, r2, w2)
           | None \<Rightarrow> None)
      | None \<Rightarrow> None)"

section \<open>Properties of strstr and of the copy loop\<close>

lemma occurs_at_0: "occurs_at hs nm 0 = prefix nm hs"
proof
  assume "occurs_at hs nm 0"
  then have "take (length nm) hs = nm" by (simp add: occurs_at_def)
  then show "prefix nm hs" by (metis take_is_prefix)
next
  assume "prefix nm hs"
  then obtain r where "hs = nm @ r" by (auto simp: prefix_def)
  then show "occurs_at hs nm 0" by (simp add: occurs_at_def)
qed

lemma occurs_at_Suc: "occurs_at (c # cs) nm (Suc k) = occurs_at cs nm k"
  by (simp add: occurs_at_def)

lemma strstr_Some:
  "strstr hs nm = Some k \<Longrightarrow> occurs_at hs nm k \<and> (\<forall>j<k. \<not> occurs_at hs nm j)"
proof (induction hs arbitrary: k)
  case Nil
  then show ?case by (simp add: occurs_at_def split: if_splits)
next
  case (Cons c cs)
  show ?case
  proof (cases "prefix nm (c # cs)")
    case True
    with Cons.prems show ?thesis by (simp add: occurs_at_0)
  next
    case False
    with Cons.prems obtain k' where k': "strstr cs nm = Some k'" "k = Suc k'"
      by auto
    from Cons.IH [OF k'(1)] have ih: "occurs_at cs nm k'" "\<forall>j<k'. \<not> occurs_at cs nm j"
      by simp_all
    have "\<not> occurs_at (c # cs) nm j" if "j < k" for j
    proof (cases j)
      case 0
      with False show ?thesis by (simp add: occurs_at_0)
    next
      case (Suc j')
      with that k' ih show ?thesis by (simp add: occurs_at_Suc)
    qed
    with ih k' show ?thesis by (simp add: occurs_at_Suc)
  qed
qed

lemma strstr_None: "strstr hs nm = None \<Longrightarrow> \<not> occurs_at hs nm k"
proof (induction hs arbitrary: k)
  case Nil
  then show ?case by (auto simp: occurs_at_def split: if_splits)
next
  case (Cons c cs)
  then have np: "\<not> prefix nm (c # cs)" and n: "strstr cs nm = None"
    by (auto split: if_splits)
  show ?case
  proof (cases k)
    case 0
    with np show ?thesis by (simp add: occurs_at_0)
  next
    case (Suc k')
    with Cons.IH [OF n] show ?thesis by (simp add: occurs_at_Suc)
  qed
qed

lemma strstr_first:
  assumes "occurs_at hs nm k" "\<forall>j<k. \<not> occurs_at hs nm j"
  shows "strstr hs nm = Some k"
proof (cases "strstr hs nm")
  case None
  with assms strstr_None show ?thesis by blast
next
  case (Some k')
  from strstr_Some [OF Some] have a: "occurs_at hs nm k'" "\<forall>j<k'. \<not> occurs_at hs nm j"
    by simp_all
  with assms have "k' = k" by (meson linorder_neqE_nat)
  with Some show ?thesis by simp
qed

lemma GetProperty_loop_done:
  "\<not> i < len \<Longrightarrow> GetProperty_loop p len i bf r = (r, bf)"
  by (subst GetProperty_loop.simps) simp

lemma GetProperty_loop_term:
  "i < len \<Longrightarrow> p i = NL \<or> p i = NUL \<Longrightarrow>
   GetProperty_loop p len i bf r = GetProperty_loop p len (i + 1) (bf(i := NUL)) EOK"
  by (subst GetProperty_loop.simps) simp

lemma GetProperty_loop_copy:
  "i < len \<Longrightarrow> \<not> (p i = NL \<or> p i = NUL) \<Longrightarrow>
   GetProperty_loop p len i bf r = GetProperty_loop p len (i + 1) (bf(i := p i)) r"
  by (subst GetProperty_loop.simps) simp

lemma GetProperty_loop_buf:
  "snd (GetProperty_loop p len i bf r) j =
     (if i \<le> j \<and> j < len then (if p j = NL \<or> p j = NUL then NUL else p j) else bf j)"
proof (induction p len i bf r rule: GetProperty_loop.induct)
  case (1 p len i bf result)
  show ?case
  proof (cases "i < len")
    case False
    then show ?thesis by (auto simp: GetProperty_loop_done)
  next
    case True
    show ?thesis
    proof (cases "p i = NL \<or> p i = NUL")
      case t: True
      have "i \<le> j \<and> j < len \<longleftrightarrow> j = i \<or> (i + 1 \<le> j \<and> j < len)"
        using True by auto
      with "1.IH"(1) [OF True t] t show ?thesis
        by (auto simp: GetProperty_loop_term [of i len p, OF True t] fun_upd_def)
    next
      case f: False
      have "i \<le> j \<and> j < len \<longleftrightarrow> j = i \<or> (i + 1 \<le> j \<and> j < len)"
        using True by auto
      with "1.IH"(2) [OF True f] f show ?thesis
        by (auto simp: GetProperty_loop_copy [of i len p, OF True f] fun_upd_def)
    qed
  qed
qed

lemma GetProperty_loop_result:
  "fst (GetProperty_loop p len i bf r) =
     (if \<exists>j. i \<le> j \<and> j < len \<and> (p j = NL \<or> p j = NUL) then EOK else r)"
proof (induction p len i bf r rule: GetProperty_loop.induct)
  case (1 p len i bf result)
  show ?case
  proof (cases "i < len")
    case False
    then show ?thesis by (auto simp: GetProperty_loop_done)
  next
    case True
    show ?thesis
    proof (cases "p i = NL \<or> p i = NUL")
      case t: True
      from "1.IH"(1) [OF True t] have "fst (GetProperty_loop p len (i + 1) (bf(i := NUL)) EOK) = EOK"
        by (simp add: fun_upd_def)
      moreover from True t have "\<exists>j. i \<le> j \<and> j < len \<and> (p j = NL \<or> p j = NUL)"
        by blast
      ultimately show ?thesis
        by (simp add: GetProperty_loop_term [of i len p, OF True t])
    next
      case f: False
      have "(\<exists>j. i \<le> j \<and> j < len \<and> (p j = NL \<or> p j = NUL)) =
            (\<exists>j. i + 1 \<le> j \<and> j < len \<and> (p j = NL \<or> p j = NUL))"
        using f by (metis Suc_eq_plus1 Suc_leI le_neq_implies_less Suc_leD)
      with "1.IH"(2) [OF True f] show ?thesis
        by (simp add: GetProperty_loop_copy [of i len p, OF True f] fun_upd_def)
    qed
  qed
qed

lemma peek_c_str:
  "i < length (c_str (chars h)) \<Longrightarrow> peek h i = c_str (chars h) ! i"
  unfolding c_str_def peek_def
  by (metis length_takeWhile_le order_less_le_trans takeWhile_nth)

lemma peek_c_str_end: "peek h (length (c_str (chars h))) = NUL"
proof (cases "length (c_str (chars h)) < length (chars h)")
  case True
  then show ?thesis
    unfolding c_str_def peek_def using nth_length_takeWhile [of "\<lambda>c. c \<noteq> NUL" "chars h"] by auto
next
  case False
  then have "length (c_str (chars h)) = length (chars h)"
    unfolding c_str_def by (simp add: length_takeWhile_le order_antisym)
  then show ?thesis by (simp add: peek_def)
qed

lemma c_str_no_NUL: "NUL \<notin> set (c_str s)"
  unfolding c_str_def by (auto dest: set_takeWhileD)

lemma GetProperty_found:
  assumes "0 < len" "strstr (c_str (chars h)) (c_str prop) = Some k"
    "peek h (k + length (c_str prop)) = CHR '':''"
  shows "IOTCLIENT_GetProperty (Some h) (Some prop) (Some b) len =
     (if \<exists>j<len. peek h (k + length (c_str prop) + 1 + j) = NL \<or>
                  peek h (k + length (c_str prop) + 1 + j) = NUL then EOK else ENOMEM,
      Some (\<lambda>i. if i < len
                 then (if peek h (k + length (c_str prop) + 1 + i) = NL \<or>
                          peek h (k + length (c_str prop) + 1 + i) = NUL
                       then NUL else peek h (k + length (c_str prop) + 1 + i))
                 else b i))"
proof -
  let ?p = "\<lambda>i. peek h (k + length (c_str prop) + 1 + i)"
  have "GetProperty_loop ?p len 0 b ENOMEM =
          (fst (GetProperty_loop ?p len 0 b ENOMEM), snd (GetProperty_loop ?p len 0 b ENOMEM))"
    by simp
  also have "fst (GetProperty_loop ?p len 0 b ENOMEM) =
          (if \<exists>j<len. ?p j = NL \<or> ?p j = NUL then EOK else ENOMEM)"
    by (simp add: GetProperty_loop_result)
  also have "snd (GetProperty_loop ?p len 0 b ENOMEM) =
          (\<lambda>i. if i < len then (if ?p i = NL \<or> ?p i = NUL then NUL else ?p i) else b i)"
    by (rule ext) (simp add: GetProperty_loop_buf)
  finally have loop: "GetProperty_loop ?p len 0 b ENOMEM =
     (if \<exists>j<len. ?p j = NL \<or> ?p j = NUL then EOK else ENOMEM,
      \<lambda>i. if i < len then (if ?p i = NL \<or> ?p i = NUL then NUL else ?p i) else b i)" .
  show ?thesis
    unfolding IOTCLIENT_GetProperty_def using assms loop by (simp add: Let_def)
qed

lemma found_iff:
  "(strstr (c_str (chars h)) nm = Some k \<and> peek h (k + length nm) = CHR '':'') \<longleftrightarrow>
   (occurs_at (c_str (chars h)) (nm @ '':'') k \<and> (\<forall>j<k. \<not> occurs_at (c_str (chars h)) nm j))"
  (is "?L \<longleftrightarrow> ?R")
proof
  let ?hs = "c_str (chars h)"
  assume L: ?L
  from strstr_Some L have occ: "occurs_at ?hs nm k" and first: "\<forall>j<k. \<not> occurs_at ?hs nm j"
    by blast+
  from occ have le: "k + length nm \<le> length ?hs" and tk: "take (length nm) (drop k ?hs) = nm"
    by (simp_all add: occurs_at_def)
  have lt: "k + length nm < length ?hs"
  proof (rule ccontr)
    assume "\<not> k + length nm < length ?hs"
    with le have "k + length nm = length ?hs" by simp
    with peek_c_str_end [of h] L show False by simp
  qed
  with L have col: "?hs ! (k + length nm) = CHR '':''"
    by (simp add: peek_c_str)
  have "take (length nm + 1) (drop k ?hs) = take (length nm) (drop k ?hs) @ [drop k ?hs ! length nm]"
    using lt by (simp add: take_Suc_conv_app_nth)
  with tk col lt have "take (length (nm @ '':'')) (drop k ?hs) = nm @ '':''"
    by (simp add: add.commute)
  with lt first show ?R by (simp add: occurs_at_def)
next
  let ?hs = "c_str (chars h)"
  assume R: ?R
  then have le: "k + length nm + 1 \<le> length ?hs"
    and tk: "take (length nm + 1) (drop k ?hs) = nm @ '':''"
    by (simp_all add: occurs_at_def)
  from tk have "take (length nm) (take (length nm + 1) (drop k ?hs)) = nm" by simp
  then have tk': "take (length nm) (drop k ?hs) = nm" by (simp add: min_def)
  with le have occ: "occurs_at ?hs nm k" by (simp add: occurs_at_def)
  from tk have "take (length nm + 1) (drop k ?hs) ! length nm = CHR '':''"
    by (simp add: nth_append)
  with le have "?hs ! (k + length nm) = CHR '':''" by simp
  with le have "peek h (k + length nm) = CHR '':''" by (simp add: peek_c_str)
  with strstr_first [OF occ] R show ?L by simp
qed

lemma not_found:
  assumes "0 < len"
    "\<not> (strstr (c_str (chars h)) (c_str prop) = Some k \<and> peek h (k + length (c_str prop)) = CHR '':'')"
    "strstr (c_str (chars h)) (c_str prop) = Some k \<or> strstr (c_str (chars h)) (c_str prop) = None"
  shows "IOTCLIENT_GetProperty (Some h) (Some prop) (Some b) len = (ENOENT, Some b)"
  unfolding IOTCLIENT_GetProperty_def using assms by (auto split: option.splits)

lemma value_read:
  assumes off: "off \<le> length (c_str (chars h))"
  defines "v \<equiv> property_value (c_str (chars h)) off"
  shows "\<forall>i<length v. peek h (off + i) = v ! i \<and> v ! i \<noteq> NL \<and> v ! i \<noteq> NUL"
    and "peek h (off + length v) = NL \<or> peek h (off + length v) = NUL"
proof -
  let ?hs = "c_str (chars h)"
  have lv: "length v \<le> length ?hs - off"
    unfolding v_def property_value_def by (metis length_drop length_takeWhile_le)
  show "\<forall>i<length v. peek h (off + i) = v ! i \<and> v ! i \<noteq> NL \<and> v ! i \<noteq> NUL"
  proof (intro allI impI)
    fix i assume i: "i < length v"
    with lv have lt: "off + i < length ?hs" by simp
    have vi: "v ! i = ?hs ! (off + i)"
      using i lt unfolding v_def property_value_def by (simp add: takeWhile_nth)
    have "v ! i \<in> set v" using i by simp
    then have "v ! i \<noteq> NL"
      unfolding v_def property_value_def by (auto dest: set_takeWhileD)
    moreover have "?hs ! (off + i) \<in> set ?hs" using lt by simp
    with c_str_no_NUL [of "chars h"] have "?hs ! (off + i) \<noteq> NUL" by metis
    ultimately show "peek h (off + i) = v ! i \<and> v ! i \<noteq> NL \<and> v ! i \<noteq> NUL"
      using vi lt by (simp add: peek_c_str)
  qed
  show "peek h (off + length v) = NL \<or> peek h (off + length v) = NUL"
  proof (cases "off + length v < length ?hs")
    case True
    then have "length (takeWhile (\<lambda>c. c \<noteq> NL) (drop off ?hs)) < length (drop off ?hs)"
      unfolding v_def property_value_def by simp
    from nth_length_takeWhile [OF this] have "drop off ?hs ! length v = NL"
      unfolding v_def property_value_def by simp
    with True have "?hs ! (off + length v) = NL" by simp
    with True show ?thesis by (simp add: peek_c_str)
  next
    case False
    with lv off have "off + length v = length ?hs" by simp
    then show ?thesis by (simp add: peek_c_str_end)
  qed
qed

section \<open>IOTCLIENT_GetProperty: result codes (claim C2)\<close>

text \<open>
  Claim C2, as amended. With a capacity of 0 the call fails with \<^verbatim>\<open>EINVAL\<close>, whatever the
  other arguments are. With a capacity \<open>len > 0\<close> and no NULL argument: when the name
  followed by \<open>:\<close> occurs nowhere in the header string, the call fails with \<^verbatim>\<open>ENOENT\<close> and
  leaves the buffer as it was; when the first occurrence of the name (at offset \<open>k\<close>) is
  followed by \<open>:\<close>, the call fails with \<^verbatim>\<open>ENOMEM\<close> exactly when the value (the characters
  after the \<open>:\<close> up to the next newline or the end of the string) has \<open>len\<close> characters or
  more, and otherwise it succeeds and the buffer holds the value followed by a NUL.
\<close>

theorem GetProperty_result_codes:
  "fst (IOTCLIENT_GetProperty headers property bf 0) = EINVAL \<and>
   (0 < len \<and> (\<forall>k. \<not> occurs_at (c_str (chars h)) (c_str prop @ '':'') k) \<longrightarrow>
      IOTCLIENT_GetProperty (Some h) (Some prop) (Some b) len = (ENOENT, Some b)) \<and>
   (0 < len \<and> occurs_at (c_str (chars h)) (c_str prop @ '':'') k \<and>
      (\<forall>j<k. \<not> occurs_at (c_str (chars h)) (c_str prop) j) \<longrightarrow>
      (let v = property_value (c_str (chars h)) (k + length (c_str prop) + 1) in
       \<exists>b'. IOTCLIENT_GetProperty (Some h) (Some prop) (Some b) len =
               (if length v < len then EOK else ENOMEM, Some b') \<and>
            (length v < len \<longrightarrow>
               (\<forall>i<length v. b' i = v ! i) \<and> b' (length v) = NUL \<and> NUL \<notin> set v)))"
proof (intro conjI impI)
  show "fst (IOTCLIENT_GetProperty headers property bf 0) = EINVAL"
    by (simp add: IOTCLIENT_GetProperty_def split: option.splits)
next
  let ?hs = "c_str (chars h)" and ?nm = "c_str prop"
  assume a: "0 < len \<and> (\<forall>k. \<not> occurs_at ?hs (?nm @ '':'') k)"
  show "IOTCLIENT_GetProperty (Some h) (Some prop) (Some b) len = (ENOENT, Some b)"
  proof (cases "strstr ?hs ?nm")
    case None
    with a show ?thesis by (simp add: IOTCLIENT_GetProperty_def)
  next
    case (Some k)
    from a found_iff [of h ?nm k] have "\<not> (strstr ?hs ?nm = Some k \<and> peek h (k + length ?nm) = CHR '':'')"
      by blast
    with a Some show ?thesis by (intro not_found [where k = k]) simp_all
  qed
next
  let ?hs = "c_str (chars h)" and ?nm = "c_str prop"
  let ?off = "k + length ?nm + 1"
  let ?v = "property_value ?hs ?off"
  let ?p = "\<lambda>i. peek h (?off + i)"
  assume a: "0 < len \<and> occurs_at ?hs (?nm @ '':'') k \<and> (\<forall>j<k. \<not> occurs_at ?hs ?nm j)"
  with found_iff [of h ?nm k]
  have f: "strstr ?hs ?nm = Some k" "peek h (k + length ?nm) = CHR '':''"
    by blast+
  from a have off: "?off \<le> length ?hs" by (simp add: occurs_at_def)
  note vr = value_read [OF off]
  have ex: "(\<exists>j<len. ?p j = NL \<or> ?p j = NUL) \<longleftrightarrow> length ?v < len"
  proof
    assume "\<exists>j<len. ?p j = NL \<or> ?p j = NUL"
    then obtain j where j: "j < len" "?p j = NL \<or> ?p j = NUL" by blast
    have "\<not> j < length ?v" using vr(1) j(2) by metis
    with j(1) show "length ?v < len" by simp
  next
    assume "length ?v < len"
    with vr(2) show "\<exists>j<len. ?p j = NL \<or> ?p j = NUL" by blast
  qed
  let ?b' = "\<lambda>i. if i < len then (if ?p i = NL \<or> ?p i = NUL then NUL else ?p i) else b i"
  from a have len: "0 < len" by simp
  have res: "IOTCLIENT_GetProperty (Some h) (Some prop) (Some b) len =
               (if length ?v < len then EOK else ENOMEM, Some ?b')"
    using GetProperty_found [OF len f, of b] ex by simp
  have "(\<forall>i<length ?v. ?b' i = ?v ! i) \<and> ?b' (length ?v) = NUL \<and> NUL \<notin> set ?v"
    if lt: "length ?v < len"
  proof (intro conjI allI impI)
    fix i assume i: "i < length ?v"
    with vr(1) have "?p i = ?v ! i" "?v ! i \<noteq> NL" "?v ! i \<noteq> NUL" by blast+
    with i lt show "?b' i = ?v ! i" by simp
  next
    from vr(2) lt show "?b' (length ?v) = NUL" by auto
  next
    show "NUL \<notin> set ?v"
    proof
      assume "NUL \<in> set ?v"
      then obtain i where "i < length ?v" "?v ! i = NUL" by (metis in_set_conv_nth)
      with vr(1) show False by blast
    qed
  qed
  with res show "let v = ?v in
       \<exists>b'. IOTCLIENT_GetProperty (Some h) (Some prop) (Some b) len =
               (if length v < len then EOK else ENOMEM, Some b') \<and>
            (length v < len \<longrightarrow>
               (\<forall>i<length v. b' i = v ! i) \<and> b' (length v) = NUL \<and> NUL \<notin> set v)"
    unfolding Let_def by blast
qed


text \<open>
  The theorem at the examples of the specification: capacity 0; a name that is absent;
  \<open>b\<close> in \<open>a:1\<newline>b:2\<newline>\<newline>\<close> with capacity 8 and with capacity 1.
\<close>

theorem GetProperty_result_codes_witness:
  "fst (IOTCLIENT_GetProperty (Some \<lparr>chars = ''a:1\<newline>\<newline>'', after = \<lambda>_. NUL\<rparr>) (Some ''a'')
      (Some (\<lambda>_. CHR ''x'')) 0) = EINVAL \<and>
   IOTCLIENT_GetProperty (Some \<lparr>chars = ''a:1\<newline>\<newline>'', after = \<lambda>_. NUL\<rparr>) (Some ''c'')
      (Some (\<lambda>_. CHR ''x'')) 8 = (ENOENT, Some (\<lambda>_. CHR ''x'')) \<and>
   (\<exists>b'. IOTCLIENT_GetProperty (Some \<lparr>chars = ''a:1\<newline>b:2\<newline>\<newline>'', after = \<lambda>_. NUL\<rparr>)
            (Some ''b'') (Some (\<lambda>_. CHR ''x'')) 8 = (EOK, Some b') \<and>
         b' 0 = CHR ''2'' \<and> b' 1 = NUL) \<and>
   (\<exists>b'. IOTCLIENT_GetProperty (Some \<lparr>chars = ''a:1\<newline>b:2\<newline>\<newline>'', after = \<lambda>_. NUL\<rparr>)
            (Some ''b'') (Some (\<lambda>_. CHR ''x'')) 1 = (ENOMEM, Some b'))"
proof -
  let ?B = "\<lambda>_::nat. CHR ''x''"
  let ?H1 = "\<lparr>chars = ''a:1\<newline>\<newline>'', after = \<lambda>_. NUL\<rparr>"
  let ?H2 = "\<lparr>chars = ''a:1\<newline>b:2\<newline>\<newline>'', after = \<lambda>_. NUL\<rparr>"
  have c1: "c_str (chars ?H1) = ''a:1\<newline>\<newline>''" and c2: "c_str (chars ?H2) = ''a:1\<newline>b:2\<newline>\<newline>''"
    and cp: "c_str ''c'' = ''c''" "c_str ''b'' = ''b''"
    by (simp_all add: c_str_def)
  have n1: "\<forall>k. \<not> occurs_at ''a:1\<newline>\<newline>'' ''c:'' k"
  proof
    fix k
    have "strstr ''a:1\<newline>\<newline>'' ''c:'' = None" by simp
    from strstr_None [OF this] show "\<not> occurs_at ''a:1\<newline>\<newline>'' ''c:'' k" .
  qed
  have "strstr ''a:1\<newline>b:2\<newline>\<newline>'' ''b'' = Some 4" by simp
  from strstr_Some [OF this] have n2: "\<forall>j<4. \<not> occurs_at ''a:1\<newline>b:2\<newline>\<newline>'' ''b'' j" by blast
  have o2: "occurs_at ''a:1\<newline>b:2\<newline>\<newline>'' ''b:'' 4" by (simp add: occurs_at_def)
  have v: "property_value ''a:1\<newline>b:2\<newline>\<newline>'' 6 = ''2''" by (simp add: property_value_def)
  note t1 = GetProperty_result_codes [of "Some ?H1" "Some ''a''" "Some ?B" 8 ?H1 "''c''" ?B 0]
  note t2 = GetProperty_result_codes [of "Some ?H1" "Some ''a''" "Some ?B" 8 ?H2 "''b''" ?B 4]
  note t3 = GetProperty_result_codes [of "Some ?H1" "Some ''a''" "Some ?B" 1 ?H2 "''b''" ?B 4]
  from t1 n1 have r1: "fst (IOTCLIENT_GetProperty (Some ?H1) (Some ''a'') (Some ?B) 0) = EINVAL"
    and r2: "IOTCLIENT_GetProperty (Some ?H1) (Some ''c'') (Some ?B) 8 = (ENOENT, Some ?B)"
    unfolding c1 cp by simp_all
  from t2 n2 o2 have r3: "\<exists>b'. IOTCLIENT_GetProperty (Some ?H2) (Some ''b'') (Some ?B) 8 = (EOK, Some b') \<and>
         b' 0 = CHR ''2'' \<and> b' 1 = NUL"
    unfolding c2 cp by (simp add: v)
  from t3 n2 o2 have r4: "\<exists>b'. IOTCLIENT_GetProperty (Some ?H2) (Some ''b'') (Some ?B) 1 = (ENOMEM, Some b')"
    unfolding c2 cp by (simp add: v)
  from r1 r2 r3 r4 show ?thesis by blast
qed

text \<open>
  Claim C2 as it is written fails at its own example: with capacity 0 the result is
  \<^verbatim>\<open>EINVAL\<close>, neither \<^verbatim>\<open>ENOMEM\<close> nor \<^verbatim>\<open>EMSGSIZE\<close>.
\<close>

theorem GetProperty_cap0_counterexample:
  "fst (IOTCLIENT_GetProperty (Some \<lparr>chars = ''a:1\<newline>\<newline>'', after = \<lambda>_. NUL\<rparr>) (Some ''a'')
      (Some (\<lambda>_. NUL)) 0) = EINVAL \<and>
   fst (IOTCLIENT_GetProperty (Some \<lparr>chars = ''a:1\<newline>\<newline>'', after = \<lambda>_. NUL\<rparr>) (Some ''a'')
      (Some (\<lambda>_. NUL)) 0) \<noteq> ENOMEM \<and>
   fst (IOTCLIENT_GetProperty (Some \<lparr>chars = ''a:1\<newline>\<newline>'', after = \<lambda>_. NUL\<rparr>) (Some ''a'')
      (Some (\<lambda>_. NUL)) 0) \<noteq> EMSGSIZE"
  by (simp add: IOTCLIENT_GetProperty_def)

text \<open>
  Only the first occurrence of the name is tested for the \<open>:\<close>. In \<open>ab:1\<newline>a:2\<newline>\<close> the
  property \<open>a\<close> is present (\<open>a:\<close> at offset 5), but the name first occurs at offset 0,
  inside \<open>ab\<close>, and the call fails with \<^verbatim>\<open>ENOENT\<close>.
\<close>

lemma GetProperty_first_occurrence_only:
  "occurs_at ''ab:1\<newline>a:2\<newline>'' ''a:'' 5 \<and>
   IOTCLIENT_GetProperty (Some \<lparr>chars = ''ab:1\<newline>a:2\<newline>'', after = aft\<rparr>) (Some ''a'') (Some b) 8 =
     (ENOENT, Some b)"
  by (simp add: occurs_at_def IOTCLIENT_GetProperty_def c_str_def peek_def)

section \<open>IOTCLIENT_GetProperty: matching inside a longer name (claim C3)\<close>

lemma occ_foo: "{k. occurs_at ''myfoo:9\<newline>'' ''foo'' k} = {2}"
proof -
  have "occurs_at ''myfoo:9\<newline>'' ''foo'' k \<longleftrightarrow> k = 2" for k
  proof
    assume o: "occurs_at ''myfoo:9\<newline>'' ''foo'' k"
    then have "k \<le> 5" by (simp add: occurs_at_def)
    then consider "k = 0" | "k = 1" | "k = 2" | "k = 3" | "k = 4" | "k = 5"
      by linarith
    then show "k = 2"
      using o by cases (simp_all add: occurs_at_def)
  next
    assume "k = 2"
    then show "occurs_at ''myfoo:9\<newline>'' ''foo'' k" by (simp add: occurs_at_def)
  qed
  then show ?thesis by auto
qed

text \<open>
  Claim C3. The headers \<open>myfoo:9\<newline>\<close> hold one property, \<open>myfoo\<close>, and the name \<open>foo\<close>
  occurs in them at offset 2 only, as the tail of that longer name. \<^verbatim>\<open>IOTCLIENT_GetProperty\<close>
  for \<open>foo\<close> succeeds with the value \<open>9\<close> of \<open>myfoo\<close> instead of failing with \<^verbatim>\<open>ENOENT\<close>,
  whatever follows the string in memory and whatever the buffer held.
\<close>

theorem GetProperty_matches_inside_longer_name:
  "{k. occurs_at ''myfoo:9\<newline>'' ''foo'' k} = {2} \<and>
   (\<exists>b'. IOTCLIENT_GetProperty (Some \<lparr>chars = ''myfoo:9\<newline>'', after = aft\<rparr>) (Some ''foo'')
            (Some b) 8 = (EOK, Some b') \<and> b' 0 = CHR ''9'' \<and> b' 1 = NUL)"
proof -
  let ?H = "\<lparr>chars = ''myfoo:9\<newline>'', after = aft\<rparr>"
  have s: "strstr (c_str (chars ?H)) (c_str ''foo'') = Some 2"
    by (simp add: c_str_def)
  have p: "peek ?H (2 + length (c_str ''foo'')) = CHR '':''"
    by (simp add: c_str_def peek_def)
  have q: "peek ?H 6 = CHR ''9''" "peek ?H 7 = NL"
    by (simp_all add: peek_def)
  have l: "length (c_str ''foo'') = 3" by (simp add: c_str_def)
  have "\<exists>j<8. peek ?H (2 + length (c_str ''foo'') + 1 + j) = NL \<or>
               peek ?H (2 + length (c_str ''foo'') + 1 + j) = NUL"
    using q l by (intro exI [of _ 1]) simp
  with GetProperty_found [of 8 ?H "''foo''" 2 b, OF _ s p] q l occ_foo show ?thesis
    by simp
qed

section \<open>IOTCLIENT_GetProperty: the whole buffer is written (claim C10)\<close>

text \<open>
  Claim C10. When \<^verbatim>\<open>strstr\<close> finds the name at offset \<open>k\<close> and a \<open>:\<close> follows it, every one
  of the \<open>len\<close> bytes of the buffer is written from the memory behind the \<open>:\<close>: byte \<open>i\<close>
  becomes NUL where \<^verbatim>\<open>p[i]\<close> is a newline or a NUL and \<^verbatim>\<open>p[i]\<close> otherwise, for every
  \<open>i < len\<close>, also behind the first terminator and behind the end of the header string;
  nothing of what the buffer held below \<open>len\<close> is kept, and the bytes from \<open>len\<close> on are
  not touched.
\<close>

theorem GetProperty_writes_every_byte:
  "0 < len \<and> strstr (c_str (chars h)) (c_str prop) = Some k \<and>
   peek h (k + length (c_str prop)) = CHR '':'' \<longrightarrow>
   (\<exists>result b'. IOTCLIENT_GetProperty (Some h) (Some prop) (Some b) len = (result, Some b') \<and>
      (\<forall>i. b' i =
         (if i < len
          then (if peek h (k + length (c_str prop) + 1 + i) = NL \<or>
                   peek h (k + length (c_str prop) + 1 + i) = NUL
                then NUL else peek h (k + length (c_str prop) + 1 + i))
          else b i)))"
  using GetProperty_found [of len h "prop" k b] by auto

text \<open>
  For \<open>a\<close> in \<open>a:1\<newline>b:2\<newline>\<newline>\<close> with capacity 8 the call succeeds, and behind the value
  \<open>1\<close> and its NUL the buffer holds the text of the next header.
\<close>

theorem GetProperty_writes_every_byte_witness:
  "\<exists>b'. IOTCLIENT_GetProperty (Some \<lparr>chars = ''a:1\<newline>b:2\<newline>\<newline>'', after = \<lambda>_. CHR ''z''\<rparr>)
            (Some ''a'') (Some (\<lambda>_. CHR ''x'')) 8 = (EOK, Some b') \<and>
         map b' [0, 1, 2, 3, 4, 5, 6, 7, 8] =
           [CHR ''1'', NUL, CHR ''b'', CHR '':'', CHR ''2'', NUL, NUL, NUL, CHR ''x'']"
proof -
  let ?H = "\<lparr>chars = ''a:1\<newline>b:2\<newline>\<newline>'', after = \<lambda>_. CHR ''z''\<rparr>"
  have s: "strstr (c_str (chars ?H)) (c_str ''a'') = Some 0"
    by (simp add: c_str_def)
  have p: "peek ?H (0 + length (c_str ''a'')) = CHR '':''"
    by (simp add: c_str_def peek_def)
  have l: "length (c_str ''a'') = 1" by (simp add: c_str_def)
  from GetProperty_writes_every_byte [of 8 ?H "''a''" 0 "\<lambda>_. CHR ''x''"] s p
  obtain result b' where r: "IOTCLIENT_GetProperty (Some ?H) (Some ''a'') (Some (\<lambda>_. CHR ''x'')) 8 = (result, Some b')"
    and b: "\<forall>i. b' i = (if i < 8 then (if peek ?H (0 + length (c_str ''a'') + 1 + i) = NL \<or>
                   peek ?H (0 + length (c_str ''a'') + 1 + i) = NUL
                then NUL else peek ?H (0 + length (c_str ''a'') + 1 + i)) else CHR ''x'')"
    by auto
  have "result = EOK"
    using r GetProperty_found [of 8 ?H "''a''" 0 "\<lambda>_. CHR ''x''", OF _ s p] l
    by (auto simp: peek_def intro: exI [of _ 1])
  moreover have "map b' [0, 1, 2, 3, 4, 5, 6, 7, 8] =
           [CHR ''1'', NUL, CHR ''b'', CHR '':'', CHR ''2'', NUL, NUL, NUL, CHR ''x'']"
    using b l by (simp add: peek_def)
  ultimately show ?thesis using r by simp
qed

section \<open>IOTCLIENT_Receive: the split of a received message (claim C1)\<close>

lemma c_str_fresh:
  assumes "NUL \<notin> set msg" "length msg < length buf0" "buf0 ! length msg = NUL"
  shows "c_str (memcpy buf0 0 msg) = msg" and "NUL \<in> set (memcpy buf0 0 msg)"
proof -
  from assms(2,3) have d: "drop (length msg) buf0 = NUL # drop (Suc (length msg)) buf0"
    by (metis Cons_nth_drop_Suc)
  then have m: "memcpy buf0 0 msg = msg @ NUL # drop (Suc (length msg)) buf0"
    by (simp add: memcpy_def)
  from assms(1) have "\<And>x. x \<in> set msg \<Longrightarrow> x \<noteq> NUL" by auto
  then have "takeWhile (\<lambda>c. c \<noteq> NUL) (msg @ NUL # drop (Suc (length msg)) buf0) =
               msg @ takeWhile (\<lambda>c. c \<noteq> NUL) (NUL # drop (Suc (length msg)) buf0)"
    by (rule takeWhile_append2)
  then show "c_str (memcpy buf0 0 msg) = msg"
    unfolding m c_str_def by simp
  show "NUL \<in> set (memcpy buf0 0 msg)"
    unfolding m by simp
qed

lemma strstr_Some_bound: "strstr hs nm = Some k \<Longrightarrow> k + length nm \<le> length hs"
proof (induction hs arbitrary: k)
  case Nil
  then show ?case by (simp split: if_splits)
next
  case (Cons c cs)
  show ?case
  proof (cases "prefix nm (c # cs)")
    case True
    with Cons.prems have "k = 0" by simp
    moreover from True have "length nm \<le> length (c # cs)" by (rule prefix_length_le)
    ultimately show ?thesis by simp
  next
    case False
    with Cons.prems obtain k' where "strstr cs nm = Some k'" "k = Suc k'" by auto
    with Cons.IH show ?thesis by simp
  qed
qed

lemma size_t_sub_le: "b \<le> a \<Longrightarrow> a < 2 ^ 64 \<Longrightarrow> size_t_sub a b = a - b"
proof -
  assume le: "b \<le> a" and lt: "a < 2 ^ 64"
  then have e: "int a - int b = int (a - b)" by simp
  from lt have "a - b < 2 ^ 64" by simp
  then have "int (a - b) < 2 ^ 64" by (simp only: of_nat_less_numeral_power_cancel_iff)
  then have "int (a - b) mod 2 ^ 64 = int (a - b)" by simp
  then show ?thesis unfolding size_t_sub_def e by simp
qed

text \<open>
  What \<^verbatim>\<open>IOTCLIENT_Receive\<close> returns for a message without NUL bytes that is shorter than
  the receive buffer and is followed by a NUL there (as in a buffer that is still zeroed
  behind the message): without a \<open>\<newline>\<newline>\<close> in the message, no headers and the whole message
  as the body; with the first \<open>\<newline>\<newline>\<close> at offset \<open>k\<close>, the first \<open>k\<close> bytes as the headers, the
  body pointer at \<open>k + 2\<close>, and the body length \<open>n - k\<close>.
\<close>

lemma Receive_on_fresh_buffer:
  assumes c: "rxBuf c = Some buf0" "rxMsgQ c \<noteq> - 1" "length buf0 = rxBufSize c"
    and n: "0 < length msg" "length msg < rxBufSize c" "rxBufSize c < 2 ^ 64"
    and z: "buf0 ! length msg = NUL" and nn: "NUL \<notin> set msg"
  shows "IOTCLIENT_Receive (Some c) True (Returned msg) e0 =
     (case strstr msg [NL, NL] of
        None \<Rightarrow>
          Some (EOK, Some (c\<lparr>rxBuf := Some (memcpy buf0 0 msg)\<rparr>),
            Some \<lparr>ppHeader = None, pHeaderLength = 0, ppBody = Some 0,
                  pBodyLength = length msg\<rparr>)
      | Some k \<Rightarrow>
          Some (EOK, Some (c\<lparr>rxBuf := Some ((memcpy buf0 0 msg)[k := NUL])\<rparr>),
            Some \<lparr>ppHeader = Some 0, pHeaderLength = k, ppBody = Some (k + 2),
                  pBodyLength = length msg - k\<rparr>))"
proof -
  from n c have lt: "length msg < length buf0" by simp
  note f = c_str_fresh [OF nn lt z]
  have mq: "mq_receive (Returned msg) (rxBufSize c) = Returned msg"
    using n by (simp add: mq_receive_def)
  show ?thesis
  proof (cases "strstr msg [NL, NL]")
    case None
    with c n f mq show ?thesis
      by (simp add: IOTCLIENT_Receive_def Let_def)
  next
    case (Some k)
    from strstr_Some_bound [OF Some] have k: "k + 2 \<le> length msg" by simp
    with n have klt: "k < rxBufSize c" by simp
    from k n have "size_t_sub (length msg) k = length msg - k"
      by (intro size_t_sub_le) simp_all
    with c n f mq Some klt show ?thesis
      by (simp add: IOTCLIENT_Receive_def Let_def)
  qed
qed

text \<open>
  \<^verbatim>\<open>strstr\<close> searches the buffer up to its first NUL, not the \<open>n\<close> bytes received. After
  the message \<open>ab\<newline>\<newline>cd\<newline>\<newline>ef\<close>, the message \<open>xyz\<close>, which holds no \<open>\<newline>\<newline>\<close>, is split at the
  second delimiter of the message before it: header length 6 for a message of 3 bytes,
  and the body length \<open>3 - 6\<close> on \<^verbatim>\<open>size_t\<close>.
\<close>

lemma Receive_finds_delimiter_of_previous_message:
  "IOTCLIENT_Receive (Some rx16) True (Returned ''ab\<newline>\<newline>cd\<newline>\<newline>ef'') 0 =
     Some (EOK,
           Some (rx16\<lparr>rxBuf := Some (''ab'' @ [NUL, NL] @ ''cd\<newline>\<newline>ef'' @ replicate 6 NUL)\<rparr>),
           Some \<lparr>ppHeader = Some 0, pHeaderLength = 2, ppBody = Some 4, pBodyLength = 8\<rparr>) \<and>
   IOTCLIENT_Receive
       (Some (rx16\<lparr>rxBuf := Some (''ab'' @ [NUL, NL] @ ''cd\<newline>\<newline>ef'' @ replicate 6 NUL)\<rparr>))
       True (Returned ''xyz'') 0 =
     Some (EOK,
           Some (rx16\<lparr>rxBuf := Some (''xyz\<newline>cd'' @ [NUL, NL] @ ''ef'' @ replicate 6 NUL)\<rparr>),
           Some \<lparr>ppHeader = Some 0, pHeaderLength = 6, ppBody = Some 8,
                 pBodyLength = 2 ^ 64 - 3\<rparr>)"
  by (simp add: IOTCLIENT_Receive_def rx16_def zero_client_def mq_receive_def memcpy_def
      c_str_def size_t_sub_def Let_def)

text \<open>
  Claim C1 does not hold of the code. A message \<open>a:1\<newline>\<newline>hi\<close> of \<open>n = 7\<close> bytes has its delimiter
  at offset \<open>k = 3\<close>. The call returns the header length 3 and the body pointer at offset
  5, but the body length \<open>n - k = 4\<close>, not \<open>n - k - 2 = 2\<close>: the body it hands out runs two
  bytes past the end of the message. For the message \<open>a:1\<newline>\<newline>\<close> (\<open>k + 2 = n\<close>) the body length
  is 2, not 0.
\<close>

theorem Receive_body_length_counts_delimiter:
  "IOTCLIENT_Receive (Some rx16) True (Returned ''a:1\<newline>\<newline>hi'') 0 =
     Some (EOK,
           Some (rx16\<lparr>rxBuf := Some (''a:1'' @ [NUL, NL] @ ''hi'' @ replicate 9 NUL)\<rparr>),
           Some \<lparr>ppHeader = Some 0, pHeaderLength = 3, ppBody = Some 5, pBodyLength = 4\<rparr>) \<and>
   view (''a:1'' @ [NUL, NL] @ ''hi'' @ replicate 9 NUL) (Some 5) 4 = ''hi'' @ [NUL, NUL] \<and>
   IOTCLIENT_Receive (Some rx16) True (Returned ''a:1\<newline>\<newline>'') 0 =
     Some (EOK,
           Some (rx16\<lparr>rxBuf := Some (''a:1'' @ [NUL, NL] @ replicate 11 NUL)\<rparr>),
           Some \<lparr>ppHeader = Some 0, pHeaderLength = 3, ppBody = Some 5, pBodyLength = 2\<rparr>)"
  by (simp add: IOTCLIENT_Receive_def rx16_def zero_client_def mq_receive_def memcpy_def
      c_str_def size_t_sub_def view_def Let_def numeral_2_eq_2)

section \<open>iotclient_SendHeaders: the control-channel frame (claim C4)\<close>

lemma length_pid_bytes: "length (pid_bytes p) = 4"
  by (simp add: pid_bytes_def)

lemma frame_in_txbuf:
  "take (length hs + 8) (memcpy (memcpy (memcpy tb 0 ''IOTC'') 4 (pid_bytes p)) 8 hs) =
     ''IOTC'' @ pid_bytes p @ hs"
proof -
  let ?X = "''IOTC'' @ pid_bytes p @ hs"
  have "memcpy (memcpy (memcpy tb 0 ''IOTC'') 4 (pid_bytes p)) 8 hs =
          ?X @ drop (8 + length hs) (''IOTC'' @ pid_bytes p @ drop 8 tb)"
    by (simp add: memcpy_def length_pid_bytes)
  moreover have "length ?X = length hs + 8"
    by (simp add: length_pid_bytes)
  ultimately show ?thesis
    by (metis append_eq_conv_conj)
qed

lemma SendHeaders_in_range:
  assumes tb: "txBuf c = Some tb" and lt: "8 + length (c_str hdrs) < maxMessageSize c"
  shows "iotclient_SendHeaders (Some c) (Some hdrs) mq_send =
      (if txMsgQ c \<noteq> - 1
       then (case mq_send of
               Returned u \<Rightarrow> (EOK, Some (c\<lparr>txBuf := Some (memcpy (memcpy (memcpy tb 0 ''IOTC'') 4 (pid_bytes (pid c))) 8 (c_str hdrs))\<rparr>),
                              Some (''IOTC'' @ pid_bytes (pid c) @ c_str hdrs))
             | Failed e \<Rightarrow> (e, Some (c\<lparr>txBuf := Some (memcpy (memcpy (memcpy tb 0 ''IOTC'') 4 (pid_bytes (pid c))) 8 (c_str hdrs))\<rparr>), None))
       else (EBADF, Some (c\<lparr>txBuf := Some (memcpy (memcpy (memcpy tb 0 ''IOTC'') 4 (pid_bytes (pid c))) 8 (c_str hdrs))\<rparr>), None))"
proof -
  have "length (c_str hdrs) + 8 < maxMessageSize c" using lt by simp
  then show ?thesis
    unfolding iotclient_SendHeaders_def Let_def
    by (simp add: tb frame_in_txbuf split: syscall.splits)
qed

lemma SendHeaders_too_large:
  assumes tb: "txBuf c = Some tb" and ge: "maxMessageSize c \<le> 8 + length (c_str hdrs)"
  shows "iotclient_SendHeaders (Some c) (Some hdrs) mq_send = (EMSGSIZE, Some c, None)"
proof -
  have "\<not> length (c_str hdrs) + 8 < maxMessageSize c" using ge by simp
  then show ?thesis
    unfolding iotclient_SendHeaders_def Let_def by (simp add: tb)
qed

text \<open>
  Claim C4. For a handle with a transmit buffer and a header string \<open>H\<close>: every frame put
  on the control queue is the four bytes \<open>IOTC\<close>, the four bytes of the process id and
  \<open>H\<close>, with nothing behind it (\<open>8 + length H\<close> bytes, no NUL among those of \<open>H\<close>). When
  \<open>8 + length H\<close> is the maximum message size or more, the call fails with \<^verbatim>\<open>EMSGSIZE\<close> and
  sends nothing; otherwise, on an open queue that takes the message, it succeeds and sends
  that frame. \<^verbatim>\<open>EMSGSIZE\<close> is the result exactly when \<open>8 + length H\<close> is the maximum or more,
  given that \<^verbatim>\<open>mq_send\<close> itself does not fail with \<^verbatim>\<open>EMSGSIZE\<close> (POSIX: it does so only for a
  message longer than the queue's \<^verbatim>\<open>mq_msgsize\<close>, which is the maximum the handle learnt).
\<close>

theorem SendHeaders_frame:
  "txBuf c = Some tb \<longrightarrow>
   (let H = c_str hdrs; r = iotclient_SendHeaders (Some c) (Some hdrs) mq_send in
    (\<forall>f. snd (snd r) = Some f \<longrightarrow>
       f = ''IOTC'' @ pid_bytes (pid c) @ H \<and> length (pid_bytes (pid c)) = 4 \<and>
       length f = 8 + length H \<and> NUL \<notin> set H) \<and>
    (maxMessageSize c \<le> 8 + length H \<longrightarrow> fst r = EMSGSIZE \<and> snd (snd r) = None) \<and>
    (mq_send \<noteq> Failed EMSGSIZE \<longrightarrow>
       (fst r = EMSGSIZE \<longleftrightarrow> maxMessageSize c \<le> 8 + length H)) \<and>
    (8 + length H < maxMessageSize c \<and> txMsgQ c \<noteq> - 1 \<and> mq_send = Returned () \<longrightarrow>
       fst r = EOK \<and> snd (snd r) = Some (''IOTC'' @ pid_bytes (pid c) @ H)))"
proof
  assume tb: "txBuf c = Some tb"
  let ?H = "c_str hdrs"
  let ?r = "iotclient_SendHeaders (Some c) (Some hdrs) mq_send"
  have nul: "NUL \<notin> set ?H"
    unfolding c_str_def by (auto dest: set_takeWhileD)
  have sent: "f = ''IOTC'' @ pid_bytes (pid c) @ ?H" if f: "snd (snd ?r) = Some f" for f
  proof (cases "8 + length ?H < maxMessageSize c")
    case True
    from f show ?thesis
      unfolding SendHeaders_in_range [OF tb True] by (cases mq_send) (simp_all split: if_splits)
  next
    case False
    then have ge: "maxMessageSize c \<le> 8 + length ?H" by simp
    from f show ?thesis unfolding SendHeaders_too_large [OF tb ge] by simp
  qed
  have c1: "\<forall>f. snd (snd ?r) = Some f \<longrightarrow>
       f = ''IOTC'' @ pid_bytes (pid c) @ ?H \<and> length (pid_bytes (pid c)) = 4 \<and>
       length f = 8 + length ?H \<and> NUL \<notin> set ?H"
  proof (intro allI impI)
    fix f assume "snd (snd ?r) = Some f"
    from sent [OF this] nul show "f = ''IOTC'' @ pid_bytes (pid c) @ ?H \<and>
       length (pid_bytes (pid c)) = 4 \<and> length f = 8 + length ?H \<and> NUL \<notin> set ?H"
      by (simp add: length_pid_bytes)
  qed
  have c2: "maxMessageSize c \<le> 8 + length ?H \<longrightarrow> fst ?r = EMSGSIZE \<and> snd (snd ?r) = None"
    using SendHeaders_too_large [OF tb] by simp
  have c3: "mq_send \<noteq> Failed EMSGSIZE \<longrightarrow>
       (fst ?r = EMSGSIZE \<longleftrightarrow> maxMessageSize c \<le> 8 + length ?H)"
  proof
    assume ne: "mq_send \<noteq> Failed EMSGSIZE"
    show "fst ?r = EMSGSIZE \<longleftrightarrow> maxMessageSize c \<le> 8 + length ?H"
    proof (cases "8 + length ?H < maxMessageSize c")
      case True
      from ne have "fst ?r \<noteq> EMSGSIZE"
        unfolding SendHeaders_in_range [OF tb True] by (cases mq_send) simp_all
      with True show ?thesis by simp
    next
      case False
      then have ge: "maxMessageSize c \<le> 8 + length ?H" by simp
      with SendHeaders_too_large [OF tb ge] show ?thesis by simp
    qed
  qed
  have c4: "8 + length ?H < maxMessageSize c \<and> txMsgQ c \<noteq> - 1 \<and> mq_send = Returned () \<longrightarrow>
       fst ?r = EOK \<and> snd (snd ?r) = Some (''IOTC'' @ pid_bytes (pid c) @ ?H)"
  proof
    assume a: "8 + length ?H < maxMessageSize c \<and> txMsgQ c \<noteq> - 1 \<and> mq_send = Returned ()"
    then have lt: "8 + length ?H < maxMessageSize c" by simp
    from a show "fst ?r = EOK \<and> snd (snd ?r) = Some (''IOTC'' @ pid_bytes (pid c) @ ?H)"
      unfolding SendHeaders_in_range [OF tb lt] by simp
  qed
  from c1 c2 c3 c4 show "let H = c_str hdrs; r = iotclient_SendHeaders (Some c) (Some hdrs) mq_send in
    (\<forall>f. snd (snd r) = Some f \<longrightarrow>
       f = ''IOTC'' @ pid_bytes (pid c) @ H \<and> length (pid_bytes (pid c)) = 4 \<and>
       length f = 8 + length H \<and> NUL \<notin> set H) \<and>
    (maxMessageSize c \<le> 8 + length H \<longrightarrow> fst r = EMSGSIZE \<and> snd (snd r) = None) \<and>
    (mq_send \<noteq> Failed EMSGSIZE \<longrightarrow>
       (fst r = EMSGSIZE \<longleftrightarrow> maxMessageSize c \<le> 8 + length H)) \<and>
    (8 + length H < maxMessageSize c \<and> txMsgQ c \<noteq> - 1 \<and> mq_send = Returned () \<longrightarrow>
       fst r = EOK \<and> snd (snd r) = Some (''IOTC'' @ pid_bytes (pid c) @ H))"
    unfolding Let_def by (intro conjI)
qed

text \<open>
  On the handle \<open>tx64\<close> (maximum 64): five bytes of headers are sent in a 13-byte frame;
  56 bytes of headers (\<open>8 + 56 = 64\<close>) are refused; 55 bytes are not.
\<close>

theorem SendHeaders_frame_witness:
  "fst (iotclient_SendHeaders (Some tx64) (Some ''a:1\<newline>\<newline>'') (Returned ())) = EOK \<and>
   snd (snd (iotclient_SendHeaders (Some tx64) (Some ''a:1\<newline>\<newline>'') (Returned ()))) =
     Some (''IOTC'' @ pid_bytes 1234 @ ''a:1\<newline>\<newline>'') \<and>
   fst (iotclient_SendHeaders (Some tx64) (Some (replicate 56 CHR ''x'')) (Returned ())) = EMSGSIZE \<and>
   snd (snd (iotclient_SendHeaders (Some tx64) (Some (replicate 56 CHR ''x'')) (Returned ()))) = None \<and>
   fst (iotclient_SendHeaders (Some tx64) (Some (replicate 55 CHR ''x'')) (Returned ())) \<noteq> EMSGSIZE"
proof -
  have tx: "txBuf tx64 = Some (replicate 64 NUL)"
    and f: "maxMessageSize tx64 = 64" "txMsgQ tx64 \<noteq> - 1" "pid tx64 = 1234"
    by (simp_all add: tx64_def zero_client_def)
  have c1: "c_str ''a:1\<newline>\<newline>'' = ''a:1\<newline>\<newline>''"
    and c2: "length (c_str (replicate 56 CHR ''x'')) = 56"
    and c3: "length (c_str (replicate 55 CHR ''x'')) = 55"
    by (simp_all add: c_str_def)
  note T1 = SendHeaders_frame [of tx64 "replicate 64 NUL" "''a:1\<newline>\<newline>''" "Returned ()",
      unfolded Let_def c1, rule_format, OF tx]
  have h1: "8 + length ''a:1\<newline>\<newline>'' < maxMessageSize tx64 \<and> txMsgQ tx64 \<noteq> - 1 \<and>
            Returned () = Returned ()"
    by (simp add: f)
  from T1 h1
  have "fst (iotclient_SendHeaders (Some tx64) (Some ''a:1\<newline>\<newline>'') (Returned ())) = EOK \<and>
        snd (snd (iotclient_SendHeaders (Some tx64) (Some ''a:1\<newline>\<newline>'') (Returned ()))) =
          Some (''IOTC'' @ pid_bytes (pid tx64) @ ''a:1\<newline>\<newline>'')"
    by blast
  then have a: "fst (iotclient_SendHeaders (Some tx64) (Some ''a:1\<newline>\<newline>'') (Returned ())) = EOK \<and>
        snd (snd (iotclient_SendHeaders (Some tx64) (Some ''a:1\<newline>\<newline>'') (Returned ()))) =
          Some (''IOTC'' @ pid_bytes 1234 @ ''a:1\<newline>\<newline>'')"
    by (simp only: f)
  note T2 = SendHeaders_frame [of tx64 "replicate 64 NUL" "replicate 56 CHR ''x''" "Returned ()",
      unfolded Let_def, rule_format, OF tx]
  have h2: "maxMessageSize tx64 \<le> 8 + length (c_str (replicate 56 CHR ''x''))"
    unfolding f c2 by simp
  from T2 h2
  have b: "fst (iotclient_SendHeaders (Some tx64) (Some (replicate 56 CHR ''x'')) (Returned ())) = EMSGSIZE \<and>
        snd (snd (iotclient_SendHeaders (Some tx64) (Some (replicate 56 CHR ''x'')) (Returned ()))) = None"
    by blast
  note T3 = SendHeaders_frame [of tx64 "replicate 64 NUL" "replicate 55 CHR ''x''" "Returned ()",
      unfolded Let_def, rule_format, OF tx]
  have h3: "\<not> maxMessageSize tx64 \<le> 8 + length (c_str (replicate 55 CHR ''x''))"
    unfolding f c3 by simp
  have ne: "Returned () \<noteq> (Failed EMSGSIZE :: unit syscall)" by simp
  from T3 h3 ne
  have c: "fst (iotclient_SendHeaders (Some tx64) (Some (replicate 55 CHR ''x'')) (Returned ())) \<noteq> EMSGSIZE"
    by blast
  from a b c show ?thesis by (intro conjI) (erule conjunct1 conjunct2)+
qed

section \<open>iotclient_SendBody: the size limit (claim C5)\<close>

text \<open>
  Claim C5. A body of 256 MiB or more is never written, whatever the handle and the
  system do. On a handle with a FIFO name whose FIFO opens, a length of 256 MiB or more
  gives \<^verbatim>\<open>EMSGSIZE\<close> with nothing written (the descriptor just opened stays open); a
  shorter length, 256 MiB - 1 included, passes the check, and when \<^verbatim>\<open>write\<close> takes all
  \<open>len\<close> bytes the call succeeds with exactly the body written.
\<close>

theorem SendBody_size_limit:
  "(MAX_IOT_MSG_SIZE \<le> len \<longrightarrow>
      written (snd (iotclient_SendBody hIoTClient body len openf writef)) = []) \<and>
   (fifoName c = Some name \<and> openf name = Returned fd \<longrightarrow>
      (MAX_IOT_MSG_SIZE \<le> len \<longrightarrow>
         iotclient_SendBody (Some c) (Some b) len openf writef =
           (EMSGSIZE, \<lparr>written = [], left_open = True\<rparr>)) \<and>
      (len < MAX_IOT_MSG_SIZE \<and> writef = Returned len \<longrightarrow>
         iotclient_SendBody (Some c) (Some b) len openf writef =
           (EOK, \<lparr>written = map b [0..<len], left_open = False\<rparr>)))"
proof (intro conjI impI)
  assume "MAX_IOT_MSG_SIZE \<le> len"
  then have "\<not> len < MAX_IOT_MSG_SIZE" by simp
  then show "written (snd (iotclient_SendBody hIoTClient body len openf writef)) = []"
    unfolding iotclient_SendBody_def
    by (simp split: option.splits syscall.splits)
next
  assume a: "fifoName c = Some name \<and> openf name = Returned fd" and "MAX_IOT_MSG_SIZE \<le> len"
  then have "\<not> len < MAX_IOT_MSG_SIZE" by simp
  with a show "iotclient_SendBody (Some c) (Some b) len openf writef =
           (EMSGSIZE, \<lparr>written = [], left_open = True\<rparr>)"
    unfolding iotclient_SendBody_def by simp
next
  assume a: "fifoName c = Some name \<and> openf name = Returned fd"
    and b: "len < MAX_IOT_MSG_SIZE \<and> writef = Returned len"
  then show "iotclient_SendBody (Some c) (Some b) len openf writef =
           (EOK, \<lparr>written = map b [0..<len], left_open = False\<rparr>)"
    unfolding iotclient_SendBody_def by simp
qed

text \<open>At exactly 256 MiB and at 256 MiB - 1, on the handle \<open>tx64\<close> with a FIFO that opens.\<close>

theorem SendBody_size_limit_witness:
  "iotclient_SendBody (Some tx64) (Some (\<lambda>i. CHR ''x'')) MAX_IOT_MSG_SIZE
       (\<lambda>path. Returned 4) (Returned MAX_IOT_MSG_SIZE) =
     (EMSGSIZE, \<lparr>written = [], left_open = True\<rparr>) \<and>
   iotclient_SendBody (Some tx64) (Some (\<lambda>i. CHR ''x'')) (MAX_IOT_MSG_SIZE - 1)
       (\<lambda>path. Returned 4) (Returned (MAX_IOT_MSG_SIZE - 1)) =
     (EOK, \<lparr>written = map (\<lambda>i. CHR ''x'') [0..<MAX_IOT_MSG_SIZE - 1], left_open = False\<rparr>) \<and>
   MAX_IOT_MSG_SIZE = 268435456"
proof -
  have h: "fifoName tx64 = Some ''/tmp/iothub_1234'' \<and> (\<lambda>path::char list. Returned (4::int)) ''/tmp/iothub_1234'' = Returned 4"
    by (simp add: tx64_def zero_client_def)
  have m: "MAX_IOT_MSG_SIZE = 268435456" by (simp add: MAX_IOT_MSG_SIZE_def)
  have lt: "MAX_IOT_MSG_SIZE - 1 < MAX_IOT_MSG_SIZE \<and>
            (Returned (MAX_IOT_MSG_SIZE - 1) :: nat syscall) = Returned (MAX_IOT_MSG_SIZE - 1)"
    unfolding m by simp
  note T1 = SendBody_size_limit [of MAX_IOT_MSG_SIZE None None "\<lambda>path. Returned 4"
      "Returned MAX_IOT_MSG_SIZE" tx64 "''/tmp/iothub_1234''" 4 "\<lambda>i. CHR ''x''",
      THEN conjunct2, rule_format, OF h, THEN conjunct1, rule_format, OF order_refl]
  note T2 = SendBody_size_limit [of "MAX_IOT_MSG_SIZE - 1" None None "\<lambda>path. Returned 4"
      "Returned (MAX_IOT_MSG_SIZE - 1)" tx64 "''/tmp/iothub_1234''" 4 "\<lambda>i. CHR ''x''",
      THEN conjunct2, rule_format, OF h, THEN conjunct2, rule_format, OF lt]
  from T1 T2 m show ?thesis by (intro conjI)
qed

section \<open>iotclient_StreamBody: the 256 MiB ceiling (claim C8)\<close>

lemma SIZE_MAX_gt: "b \<le> MAX_IOT_MSG_SIZE \<Longrightarrow> b < SIZE_MAX"
  by (simp add: MAX_IOT_MSG_SIZE_def SIZE_MAX_def)

lemma StreamBody_iter_True:
  assumes inv: "stream_inv s" and go: "StreamBody_iter src snk s = (True, s')"
  shows "stream_inv s' \<and> total s < total s'"
proof -
  define r where "r = src (calls s)"
  define n0 where "n0 = (case r of Failed e \<Rightarrow> SIZE_MAX | Returned d \<Rightarrow> length (take BUFSIZ d))"
  define mem where "mem = (case r of Failed e \<Rightarrow> buf s | Returned d \<Rightarrow> store (buf s) (take BUFSIZ d))"
  define n where "n = (if n0 > bytesLeft s then bytesLeft s else n0)"
  define taken where "taken = (case snk (calls s) n of Failed e \<Rightarrow> 0 | Returned m \<Rightarrow> min m n)"
  have it: "StreamBody_iter src snk s =
      (if n > 0 then
           (True, \<lparr>total = total s + n, bytesLeft = bytesLeft s - n, buf = mem,
                   calls = calls s + 1, piped = piped s @ map mem [0..<taken]\<rparr>)
         else (False, s\<lparr>buf := mem, calls := calls s + 1\<rparr>))"
    unfolding StreamBody_iter_def Let_def r_def n0_def mem_def n_def taken_def ..
  from go it have pos: "n > 0"
    and s': "s' = \<lparr>total = total s + n, bytesLeft = bytesLeft s - n, buf = mem,
                   calls = calls s + 1, piped = piped s @ map mem [0..<taken]\<rparr>"
    by (auto split: if_splits)
  have nle: "n \<le> bytesLeft s" unfolding n_def by simp
  have tle: "taken \<le> n" unfolding taken_def by (simp split: syscall.splits)
  from inv nle tle pos show ?thesis
    unfolding s' stream_inv_def by simp
qed

lemma StreamBody_iter_False:
  assumes inv: "stream_inv s" and lt: "total s < MAX_IOT_MSG_SIZE"
    and stop: "StreamBody_iter src snk s = (False, s')"
  shows "total s' = total s \<and> bytesLeft s' = bytesLeft s \<and> piped s' = piped s \<and>
         calls s' = calls s + 1 \<and> (\<exists>d. src (calls s) = Returned d \<and> take BUFSIZ d = [])"
proof -
  define r where "r = src (calls s)"
  define n0 where "n0 = (case r of Failed e \<Rightarrow> SIZE_MAX | Returned d \<Rightarrow> length (take BUFSIZ d))"
  define mem where "mem = (case r of Failed e \<Rightarrow> buf s | Returned d \<Rightarrow> store (buf s) (take BUFSIZ d))"
  define n where "n = (if n0 > bytesLeft s then bytesLeft s else n0)"
  define taken where "taken = (case snk (calls s) n of Failed e \<Rightarrow> 0 | Returned m \<Rightarrow> min m n)"
  have it: "StreamBody_iter src snk s =
      (if n > 0 then
           (True, \<lparr>total = total s + n, bytesLeft = bytesLeft s - n, buf = mem,
                   calls = calls s + 1, piped = piped s @ map mem [0..<taken]\<rparr>)
         else (False, s\<lparr>buf := mem, calls := calls s + 1\<rparr>))"
    unfolding StreamBody_iter_def Let_def r_def n0_def mem_def n_def taken_def ..
  from stop it have z: "n = 0" and s': "s' = s\<lparr>buf := mem, calls := calls s + 1\<rparr>"
    by (auto split: if_splits)
  from inv lt have bl: "0 < bytesLeft s" "bytesLeft s \<le> MAX_IOT_MSG_SIZE"
    unfolding stream_inv_def by simp_all
  from z bl have n0: "n0 = 0" unfolding n_def by (simp split: if_splits)
  have "\<exists>d. r = Returned d \<and> take BUFSIZ d = []"
  proof (cases r)
    case (Failed e)
    with n0 have "SIZE_MAX = 0" unfolding n0_def by simp
    with SIZE_MAX_gt [OF bl(2)] show ?thesis by simp
  next
    case (Returned d)
    with n0 show ?thesis unfolding n0_def by (auto simp: min_def BUFSIZ_def split: if_splits)
  qed
  then show ?thesis unfolding s' r_def by simp
qed

lemma StreamBody_loop_final:
  "stream_inv s \<Longrightarrow>
   total (StreamBody_loop src snk s) + bytesLeft (StreamBody_loop src snk s) = MAX_IOT_MSG_SIZE \<and>
   length (piped (StreamBody_loop src snk s)) \<le> total (StreamBody_loop src snk s) \<and>
   calls (StreamBody_loop src snk s) \<le> total (StreamBody_loop src snk s) + 1 \<and>
   (total (StreamBody_loop src snk s) = MAX_IOT_MSG_SIZE \<or>
    (\<exists>d. 0 < calls (StreamBody_loop src snk s) \<and>
         src (calls (StreamBody_loop src snk s) - 1) = Returned d \<and> take BUFSIZ d = []))"
proof (induction src snk s rule: StreamBody_loop.induct)
  case (1 src snk s)
  show ?case
  proof (cases "total s < MAX_IOT_MSG_SIZE")
    case False
    with "1.prems" have "total s = MAX_IOT_MSG_SIZE" unfolding stream_inv_def by simp
    moreover from False have "StreamBody_loop src snk s = s"
      by (subst StreamBody_loop.simps) simp
    ultimately show ?thesis using "1.prems" unfolding stream_inv_def by simp
  next
    case True
    obtain go s' where it: "StreamBody_iter src snk s = (go, s')"
      by (cases "StreamBody_iter src snk s")
    show ?thesis
    proof (cases go)
      case go: True
      with it have it': "StreamBody_iter src snk s = (True, s')" by simp
      from True it' have eq: "StreamBody_loop src snk s = StreamBody_loop src snk s'"
        by (subst StreamBody_loop.simps) simp
      from StreamBody_iter_True [OF "1.prems" it'] have "stream_inv s'" by simp
      from "1.IH" [OF True it' [symmetric] _ this] show ?thesis
        unfolding eq by simp
    next
      case stop: False
      with it have it': "StreamBody_iter src snk s = (False, s')" by simp
      from True it' have eq: "StreamBody_loop src snk s = s'"
        by (subst StreamBody_loop.simps) simp
      from StreamBody_iter_False [OF "1.prems" True it'] "1.prems" show ?thesis
        unfolding eq stream_inv_def by simp
    qed
  qed
qed

text \<open>
  Claim C8. The invariant \<open>stream_inv\<close> holds when the loop is entered and after every
  iteration that goes on, for every source and sink; under it \<^verbatim>\<open>total\<close> and the number of
  bytes the FIFO has taken are at most 256 MiB, and every such iteration increases
  \<^verbatim>\<open>total\<close>. The loop (a total function: it ends for every source) leaves a state with
  \<^verbatim>\<open>total\<close> at most 256 MiB, no more than \<^verbatim>\<open>total\<close> bytes in the FIFO and at most
  \<open>total + 1\<close> reads made; it ends with \<^verbatim>\<open>total\<close> at the ceiling or after a read that
  returned no bytes.
\<close>

theorem StreamBody_never_exceeds_ceiling:
  "stream_inv (stream_init buf0) \<and>
   (stream_inv s \<longrightarrow> total s \<le> MAX_IOT_MSG_SIZE \<and> length (piped s) \<le> MAX_IOT_MSG_SIZE) \<and>
   (stream_inv s \<and> StreamBody_iter src snk s = (True, s') \<longrightarrow>
      stream_inv s' \<and> total s < total s') \<and>
   (let f = StreamBody_loop src snk (stream_init buf0) in
      total f \<le> MAX_IOT_MSG_SIZE \<and> length (piped f) \<le> total f \<and> calls f \<le> total f + 1 \<and>
      (total f = MAX_IOT_MSG_SIZE \<or>
       (\<exists>d. 0 < calls f \<and> src (calls f - 1) = Returned d \<and> take BUFSIZ d = [])))"
proof (intro conjI)
  show init: "stream_inv (stream_init buf0)"
    by (simp add: stream_inv_def stream_init_def)
  show "stream_inv s \<longrightarrow> total s \<le> MAX_IOT_MSG_SIZE \<and> length (piped s) \<le> MAX_IOT_MSG_SIZE"
    by (auto simp: stream_inv_def)
  show "stream_inv s \<and> StreamBody_iter src snk s = (True, s') \<longrightarrow>
      stream_inv s' \<and> total s < total s'"
    using StreamBody_iter_True by blast
  from StreamBody_loop_final [OF init, of src snk]
  show "let f = StreamBody_loop src snk (stream_init buf0) in
      total f \<le> MAX_IOT_MSG_SIZE \<and> length (piped f) \<le> total f \<and> calls f \<le> total f + 1 \<and>
      (total f = MAX_IOT_MSG_SIZE \<or>
       (\<exists>d. 0 < calls f \<and> src (calls f - 1) = Returned d \<and> take BUFSIZ d = []))"
    unfolding Let_def by auto
qed

text \<open>
  Two bytes below the ceiling a read of three bytes is cut to two: \<^verbatim>\<open>total\<close> reaches the
  ceiling and the invariant holds.
\<close>

theorem StreamBody_never_exceeds_ceiling_witness:
  "StreamBody_iter (\<lambda>k. Returned ''abc'') (\<lambda>k n. Returned n)
      \<lparr>total = MAX_IOT_MSG_SIZE - 2, bytesLeft = 2, buf = \<lambda>i. NUL, calls = 1, piped = ''x''\<rparr> =
     (True, \<lparr>total = MAX_IOT_MSG_SIZE - 2 + 2, bytesLeft = 2 - 2, buf = store (\<lambda>i. NUL) ''abc'',
             calls = 1 + 1, piped = ''x'' @ ''ab''\<rparr>) \<and>
   stream_inv \<lparr>total = MAX_IOT_MSG_SIZE - 2 + 2, bytesLeft = 2 - 2, buf = store (\<lambda>i. NUL) ''abc'',
             calls = 1 + 1, piped = ''x'' @ ''ab''\<rparr> \<and>
   total \<lparr>total = MAX_IOT_MSG_SIZE - 2 + 2, bytesLeft = 2 - 2, buf = store (\<lambda>i. NUL) ''abc'',
             calls = 1 + 1, piped = ''x'' @ ''ab''\<rparr> \<le> MAX_IOT_MSG_SIZE"
proof -
  let ?s = "\<lparr>total = MAX_IOT_MSG_SIZE - 2, bytesLeft = 2, buf = \<lambda>i. NUL, calls = 1, piped = ''x''\<rparr>"
  let ?s' = "\<lparr>total = MAX_IOT_MSG_SIZE - 2 + 2, bytesLeft = 2 - 2, buf = store (\<lambda>i. NUL) ''abc'',
             calls = 1 + 1, piped = ''x'' @ ''ab''\<rparr>"
  have inv: "stream_inv ?s"
    by (simp add: stream_inv_def MAX_IOT_MSG_SIZE_def)
  have m: "map (store (\<lambda>i. NUL) ''abc'') [0..<2] = ''ab''"
    by (simp add: store_def upt_rec)
  have it: "StreamBody_iter (\<lambda>k. Returned ''abc'') (\<lambda>k n. Returned n) ?s = (True, ?s')"
    by (simp add: StreamBody_iter_def Let_def BUFSIZ_def m)
  from inv it have h: "stream_inv ?s \<and> StreamBody_iter (\<lambda>k. Returned ''abc'') (\<lambda>k n. Returned n) ?s = (True, ?s')"
    by (rule conjI)
  note T = StreamBody_never_exceeds_ceiling [of "\<lambda>i. NUL" ?s "\<lambda>k. Returned ''abc''" "\<lambda>k n. Returned n" ?s']
  from T h have a: "stream_inv ?s'" by blast
  note T' = StreamBody_never_exceeds_ceiling [of "\<lambda>i. NUL" ?s' "\<lambda>k. Returned ''abc''" "\<lambda>k n. Returned n" ?s']
  from T' a have b: "total ?s' \<le> MAX_IOT_MSG_SIZE" by blast
  from it a b show ?thesis by (intro conjI)
qed

section \<open>iotclient_StreamBody: the result code (claim C9)\<close>

text \<open>
  Claim C9. Once the FIFO is open the result is \<^verbatim>\<open>EOK\<close>, for every source \<open>src\<close> and every
  sink \<open>snk\<close>: what the reads and writes return does not reach the result. The result is
  \<^verbatim>\<open>EINVAL\<close> exactly for a NULL handle or the descriptor \<open>-1\<close>, \<^verbatim>\<open>ENOENT\<close> exactly for a handle
  without a FIFO name, \<^verbatim>\<open>EBADF\<close> exactly when the FIFO does not open, and \<^verbatim>\<open>EOK\<close> otherwise.
\<close>

theorem StreamBody_result_code:
  "(hIoTClient = Some c \<and> fd \<noteq> - 1 \<and> fifoName c = Some name \<and> openf name = Returned fd_out \<longrightarrow>
      fst (iotclient_StreamBody hIoTClient fd openf src snk buf0) = EOK) \<and>
   (fst (iotclient_StreamBody hIoTClient fd openf src snk buf0) = EINVAL \<longleftrightarrow>
      hIoTClient = None \<or> fd = - 1) \<and>
   (fst (iotclient_StreamBody hIoTClient fd openf src snk buf0) = ENOENT \<longleftrightarrow>
      (\<exists>c. hIoTClient = Some c \<and> fd \<noteq> - 1 \<and> fifoName c = None)) \<and>
   (fst (iotclient_StreamBody hIoTClient fd openf src snk buf0) = EBADF \<longleftrightarrow>
      (\<exists>c name e. hIoTClient = Some c \<and> fd \<noteq> - 1 \<and> fifoName c = Some name \<and>
         openf name = Failed e)) \<and>
   (fst (iotclient_StreamBody hIoTClient fd openf src snk buf0) = EOK \<longleftrightarrow>
      (\<exists>c name fd_out. hIoTClient = Some c \<and> fd \<noteq> - 1 \<and> fifoName c = Some name \<and>
         openf name = Returned fd_out))"
  unfolding iotclient_StreamBody_def
  by (auto split: option.splits syscall.splits)

text \<open>
  With a source whose every read fails and a sink whose every write fails, and with a
  sink that takes one byte of three (a short write): the result is \<^verbatim>\<open>EOK\<close>.
\<close>

theorem StreamBody_result_code_witness:
  "fst (iotclient_StreamBody (Some tx64) 5 (\<lambda>path. Returned 4)
          (\<lambda>k. Failed EIO) (\<lambda>k n. Failed EIO) (\<lambda>i. NUL)) = EOK \<and>
   fst (iotclient_StreamBody (Some tx64) 5 (\<lambda>path. Returned 4)
          (\<lambda>k. Returned (if k = 0 then ''abc'' else [])) (\<lambda>k n. Returned 1) (\<lambda>i. NUL)) = EOK"
proof -
  have h: "fifoName tx64 = Some ''/tmp/iothub_1234''"
    by (simp add: tx64_def zero_client_def)
  have "Some tx64 = Some tx64 \<and> (5::int) \<noteq> - 1 \<and> fifoName tx64 = Some ''/tmp/iothub_1234'' \<and>
        (\<lambda>path::char list. Returned (4::int)) ''/tmp/iothub_1234'' = Returned 4"
    using h by simp
  note hyp = this
  from StreamBody_result_code [of "Some tx64" tx64 5 "''/tmp/iothub_1234''" "\<lambda>path. Returned 4" 4
       "\<lambda>k. Failed EIO" "\<lambda>k n. Failed EIO" "\<lambda>i. NUL", THEN conjunct1, rule_format, OF hyp]
     StreamBody_result_code [of "Some tx64" tx64 5 "''/tmp/iothub_1234''" "\<lambda>path. Returned 4" 4
       "\<lambda>k. Returned (if k = 0 then ''abc'' else [])" "\<lambda>k n. Returned 1" "\<lambda>i. NUL",
       THEN conjunct1, rule_format, OF hyp]
  show ?thesis by (intro conjI)
qed

section \<open>IOTCLIENT_Create: release on failure (claim C6)\<close>

lemma CreateTxMessageQueue_cases:
  "iotclient_CreateTxMessageQueue (Some c0) env w =
     (case mq_open env of
        Failed e \<Rightarrow> (e, Some (c0\<lparr>txMsgQ := - 1\<rparr>), w\<lparr>errno := e\<rparr>)
      | Returned q \<Rightarrow>
          (case mq_getattr env of
             Failed e \<Rightarrow> (EIO, Some (c0\<lparr>txMsgQ := q\<rparr>), w\<lparr>mqds := q # mqds w, errno := e\<rparr>)
           | Returned m \<Rightarrow>
               if calloc_txbuf env
               then (EOK, Some (c0\<lparr>txMsgQ := q, maxMessageSize := m, txBuf := Some (replicate m NUL)\<rparr>),
                     w\<lparr>mqds := q # mqds w, blocks := blocks w + 1\<rparr>)
               else (ENOMEM, Some (c0\<lparr>txMsgQ := - 1, maxMessageSize := m, txBuf := None\<rparr>), w)))"
  by (cases w) (simp add: iotclient_CreateTxMessageQueue_def sys_mq_close_def Let_def
      split: syscall.splits)

lemma CreateFIFO_fails:
  assumes "iotclient_CreateFIFO (Some c) env w = (rc, h, w')" "rc \<noteq> EOK"
    and "''/tmp/iothub_'' @ show_int (sint (getpid env)) \<notin> set (fifos w)"
  shows "same_resources w w' \<and>
         (\<exists>c'. h = Some c' \<and> txBuf c' = txBuf c \<and> txMsgQ c' = txMsgQ c)"
  using assms
  by (cases w)
    (auto simp: iotclient_CreateFIFO_def iotclient_DestroyFIFO_def sys_mkfifo_def sys_unlink_def
      same_resources_def Let_def split: if_splits option.splits)

lemma DestroyTxMessageQueue_after_create:
  assumes "txBuf c = Some b" "txMsgQ c = q" "q \<noteq> - 1"
  shows "snd (iotclient_DestroyTxMessageQueue (Some c) w) =
           sys_mq_close q (w\<lparr>blocks := blocks w - 1\<rparr>)"
  using assms by (simp add: iotclient_DestroyTxMessageQueue_def Let_def)

text \<open>
  A failed \<^verbatim>\<open>IOTCLIENT_Create\<close> leaves the process with the resources it had, at every
  failure but that of \<^verbatim>\<open>mq_getattr\<close>, as long as no file stands at the path of the FIFO
  already (\<^verbatim>\<open>iotclient_DestroyFIFO\<close> removes the path after a failed \<^verbatim>\<open>mkfifo\<close>, whoever
  made it).
\<close>

lemma Create_failure_releases:
  assumes fail: "fst (IOTCLIENT_Create env w) = None"
    and not_getattr: "\<not> (\<exists>a q e. calloc_handle env = Some a \<and> mq_open env = Returned q \<and>
                              mq_getattr env = Failed e)"
    and opened: "\<forall>q. mq_open env = Returned q \<longrightarrow> q \<noteq> - 1"
    and fresh: "''/tmp/iothub_'' @ show_int (sint (getpid env)) \<notin> set (fifos w)"
  shows "same_resources w (snd (IOTCLIENT_Create env w))"
proof (cases "calloc_handle env")
  case None
  then show ?thesis by (simp add: IOTCLIENT_Create_def same_resources_def)
next
  case (Some a)
  show ?thesis
  proof (cases "mq_open env")
    case (Failed e)
    obtain rc h w' where f: "iotclient_CreateFIFO (Some (zero_client\<lparr>txMsgQ := - 1\<rparr>)) env (w\<lparr>errno := e\<rparr>) = (rc, h, w')"
      by (metis prod_cases3)
    show ?thesis
    proof (cases "e = EOK")
      case False
      with Some Failed show ?thesis
        by (simp add: IOTCLIENT_Create_def CreateTxMessageQueue_cases same_resources_def)
    next
      case True
      show ?thesis
      proof (cases "rc = EOK")
        case rc: True
        with Some Failed True f fail show ?thesis
          by (simp add: IOTCLIENT_Create_def CreateTxMessageQueue_cases)
      next
        case rc: False
        from fresh have "''/tmp/iothub_'' @ show_int (sint (getpid env)) \<notin> set (fifos (w\<lparr>errno := e\<rparr>))"
          by simp
        from CreateFIFO_fails [OF f rc this] obtain c' where
          c': "same_resources (w\<lparr>errno := e\<rparr>) w'" "h = Some c'" "txBuf c' = None" "txMsgQ c' = - 1"
          by (auto simp: zero_client_def)
        with Some Failed True f rc show ?thesis
          by (simp add: IOTCLIENT_Create_def CreateTxMessageQueue_cases same_resources_def
              iotclient_DestroyTxMessageQueue_def)
      qed
    qed
  next
    case (Returned q)
    with opened have q: "q \<noteq> - 1" by simp
    from not_getattr Some Returned obtain m where m: "mq_getattr env = Returned m"
      by (cases "mq_getattr env") auto
    show ?thesis
    proof (cases "calloc_txbuf env")
      case False
      with Some Returned m show ?thesis
        by (simp add: IOTCLIENT_Create_def CreateTxMessageQueue_cases same_resources_def)
    next
      case True
      let ?c = "zero_client\<lparr>txMsgQ := q, maxMessageSize := m, txBuf := Some (replicate m NUL)\<rparr>"
      let ?w = "w\<lparr>mqds := q # mqds w, blocks := blocks w + 1\<rparr>"
      obtain rc h w' where f: "iotclient_CreateFIFO (Some ?c) env ?w = (rc, h, w')"
        by (metis prod_cases3)
      have rc: "rc \<noteq> EOK"
      proof
        assume "rc = EOK"
        with Some Returned m True f fail show False
          by (simp add: IOTCLIENT_Create_def CreateTxMessageQueue_cases)
      qed
      from fresh have "''/tmp/iothub_'' @ show_int (sint (getpid env)) \<notin> set (fifos ?w)"
        by simp
      from CreateFIFO_fails [OF f rc this] obtain c' where
        c': "same_resources ?w w'" "h = Some c'" "txBuf c' = Some (replicate m NUL)" "txMsgQ c' = q"
        by auto
      have "snd (iotclient_DestroyTxMessageQueue (Some c') w') =
              sys_mq_close q (w'\<lparr>blocks := blocks w' - 1\<rparr>)"
        using c'(3,4) q by (rule DestroyTxMessageQueue_after_create)
      moreover have "same_resources w (sys_mq_close q (w'\<lparr>blocks := blocks w' - 1\<rparr>))"
        using c'(1) by (simp add: same_resources_def sys_mq_close_def)
      ultimately have "same_resources w (snd (iotclient_DestroyTxMessageQueue (Some c') w'))"
        by simp
      with Some Returned m True f rc c'(2) show ?thesis
        by (auto simp: IOTCLIENT_Create_def CreateTxMessageQueue_cases split: prod.splits)
    qed
  qed
qed

lemma CreateFIFO_EOK:
  assumes "iotclient_CreateFIFO (Some c) env w = (EOK, h, w')"
  shows "asprintf_ok env \<and> mkfifo_error env = None \<and>
         ''/tmp/iothub_'' @ show_int (sint (getpid env)) \<notin> set (fifos w)"
  using assms
  by (cases w)
    (auto simp: iotclient_CreateFIFO_def iotclient_DestroyFIFO_def sys_mkfifo_def sys_unlink_def
      Let_def split: if_splits option.splits)

text \<open>A handle is returned only when every step succeeded.\<close>

lemma Create_handle_only_on_success:
  assumes ok: "fst (IOTCLIENT_Create env w) = Some a"
    and nz: "\<forall>e. mq_open env = Failed e \<longrightarrow> e \<noteq> EOK"
  shows "calloc_handle env = Some a \<and> (\<exists>q m. mq_open env = Returned q \<and> mq_getattr env = Returned m) \<and>
         calloc_txbuf env \<and> asprintf_ok env \<and> mkfifo_error env = None \<and>
         ''/tmp/iothub_'' @ show_int (sint (getpid env)) \<notin> set (fifos w)"
proof (cases "calloc_handle env")
  case None
  with ok show ?thesis by (simp add: IOTCLIENT_Create_def)
next
  case (Some a')
  show ?thesis
  proof (cases "mq_open env")
    case (Failed e)
    with nz have "e \<noteq> EOK" by simp
    with Some Failed ok show ?thesis
      by (simp add: IOTCLIENT_Create_def CreateTxMessageQueue_cases)
  next
    case (Returned q)
    show ?thesis
    proof (cases "mq_getattr env")
      case (Failed e)
      with Some Returned ok show ?thesis
        by (simp add: IOTCLIENT_Create_def CreateTxMessageQueue_cases)
    next
      case m: (Returned m)
      show ?thesis
      proof (cases "calloc_txbuf env")
        case False
        with Some Returned m ok show ?thesis
          by (simp add: IOTCLIENT_Create_def CreateTxMessageQueue_cases)
      next
        case True
        let ?c = "zero_client\<lparr>txMsgQ := q, maxMessageSize := m, txBuf := Some (replicate m NUL)\<rparr>"
        let ?w = "w\<lparr>mqds := q # mqds w, blocks := blocks w + 1\<rparr>"
        obtain rc h w' where f: "iotclient_CreateFIFO (Some ?c) env ?w = (rc, h, w')"
          by (metis prod_cases3)
        have rc: "rc = EOK"
        proof (rule ccontr)
          assume "rc \<noteq> EOK"
          with Some Returned m True f ok show False
            by (auto simp: IOTCLIENT_Create_def CreateTxMessageQueue_cases split: prod.splits)
        qed
        from f rc have "iotclient_CreateFIFO (Some ?c) env ?w = (EOK, h, w')" by simp
        from CreateFIFO_EOK [OF this]
        have "asprintf_ok env \<and> mkfifo_error env = None \<and>
              ''/tmp/iothub_'' @ show_int (sint (getpid env)) \<notin> set (fifos w)"
          by simp
        moreover from Some Returned m True f rc ok have "a' = a"
          by (simp add: IOTCLIENT_Create_def CreateTxMessageQueue_cases)
        ultimately show ?thesis using Some Returned m True by simp
      qed
    qed
  qed
qed

text \<open>
  Claim C6 does not hold of the code where \<^verbatim>\<open>mq_getattr\<close> fails. On the system \<open>env_ok\<close>
  with that one failure, \<^verbatim>\<open>IOTCLIENT_Create\<close> returns NULL and leaves descriptor 3, which
  \<^verbatim>\<open>mq_open\<close> returned, open: \<^verbatim>\<open>iotclient_CreateTxMessageQueue\<close> returns \<^verbatim>\<open>EIO\<close> without
  \<^verbatim>\<open>mq_close\<close>, and \<^verbatim>\<open>IOTCLIENT_Create\<close> only frees the object. Where the allocation of the
  transmit buffer fails instead, the next branch of the same function, the queue is closed
  and the process holds what it held before.
\<close>

theorem Create_getattr_failure_leaves_queue_open:
  "IOTCLIENT_Create (env_ok\<lparr>mq_getattr := Failed EBADF\<rparr>) empty_world =
     (None, empty_world\<lparr>mqds := [3], errno := EBADF\<rparr>) \<and>
   IOTCLIENT_Create (env_ok\<lparr>calloc_txbuf := False\<rparr>) empty_world = (None, empty_world)"
  by (simp add: IOTCLIENT_Create_def iotclient_CreateTxMessageQueue_def env_ok_def
      empty_world_def zero_client_def sys_mq_close_def Let_def)

section \<open>IOTCLIENT_Close (claim C7)\<close>

lemma DestroyFIFO_Some:
  "\<exists>c' w'. iotclient_DestroyFIFO (Some c) w = (Some c', w') \<and> heap w' = heap w \<and>
      fifoName c' = None \<and> (\<forall>n. fifoName c = Some n \<longrightarrow> n \<notin> set (fifos w')) \<and>
      set (fifos w') \<subseteq> set (fifos w)"
  by (cases "fifoName c")
    (auto simp: iotclient_DestroyFIFO_def sys_unlink_def Let_def)

lemma DestroyTxMessageQueue_Some:
  "\<exists>c' w'. iotclient_DestroyTxMessageQueue (Some c) w = (Some c', w') \<and> heap w' = heap w \<and>
      fifos w' = fifos w"
  by (cases "txBuf c")
    (auto simp: iotclient_DestroyTxMessageQueue_def sys_mq_close_def Let_def)

lemma DestroyRxMessageQueue_Some:
  "\<exists>c' w'. iotclient_DestroyRxMessageQueue (Some c) w = (Some c', w') \<and> heap w' = heap w \<and>
      fifos w' = fifos w"
  by (cases "rxBuf c")
    (auto simp: iotclient_DestroyRxMessageQueue_def sys_mq_close_def Let_def)

lemma Close_live:
  assumes live: "heap w a = Some c"
  shows "\<exists>w'. IOTCLIENT_Close (Some a) w = Some (EOK, w') \<and> heap w' = (heap w)(a := None) \<and>
           (\<forall>n. fifoName c = Some n \<longrightarrow> n \<notin> set (fifos w'))"
proof -
  from DestroyFIFO_Some [of c w] obtain c1 w1 where
    1: "iotclient_DestroyFIFO (Some c) w = (Some c1, w1)" "heap w1 = heap w"
       "\<forall>n. fifoName c = Some n \<longrightarrow> n \<notin> set (fifos w1)"
    by blast
  from DestroyTxMessageQueue_Some [of c1 w1] obtain c2 w2 where
    2: "iotclient_DestroyTxMessageQueue (Some c1) w1 = (Some c2, w2)" "heap w2 = heap w1"
       "fifos w2 = fifos w1"
    by blast
  from DestroyRxMessageQueue_Some [of c2 w2] obtain c3 w3 where
    3: "iotclient_DestroyRxMessageQueue (Some c2) w2 = (Some c3, w3)" "heap w3 = heap w2"
       "fifos w3 = fifos w2"
    by blast
  have "IOTCLIENT_Close (Some a) w = Some (EOK, w3\<lparr>heap := (heap w3)(a := None)\<rparr>)"
    unfolding IOTCLIENT_Close_def by (simp add: live 1(1) 2(1) 3(1))
  with 1 2 3 show ?thesis by simp
qed

text \<open>
  Claim C7, as amended. \<^verbatim>\<open>IOTCLIENT_Close\<close> fails with \<^verbatim>\<open>EINVAL\<close> for the NULL handle and for
  no other. For every live handle it succeeds, whatever the object and the file system
  hold (a FIFO already removed from outside included); afterwards the FIFO name is not in
  the file system and the object is freed, no other object is, and a second call on the
  same handle is a call on freed memory, as is any call on a handle that is not live.
\<close>

theorem Close_result:
  "IOTCLIENT_Close None w = Some (EINVAL, w) \<and>
   (heap w a = Some c \<longrightarrow>
      (\<exists>w'. IOTCLIENT_Close (Some a) w = Some (EOK, w') \<and>
            heap w' = (heap w)(a := None) \<and>
            (\<forall>n. fifoName c = Some n \<longrightarrow> n \<notin> set (fifos w')) \<and>
            IOTCLIENT_Close (Some a) w' = None)) \<and>
   (heap w a = None \<longrightarrow> IOTCLIENT_Close (Some a) w = None) \<and>
   (\<forall>w'. IOTCLIENT_Close h w = Some (EINVAL, w') \<longrightarrow> h = None)"
proof (intro conjI impI allI)
  show "IOTCLIENT_Close None w = Some (EINVAL, w)"
    by (simp add: IOTCLIENT_Close_def)
next
  assume live: "heap w a = Some c"
  from Close_live [OF live] obtain w' where
    w': "IOTCLIENT_Close (Some a) w = Some (EOK, w')" "heap w' = (heap w)(a := None)"
        "\<forall>n. fifoName c = Some n \<longrightarrow> n \<notin> set (fifos w')"
    by blast
  from w'(2) have "IOTCLIENT_Close (Some a) w' = None"
    by (simp add: IOTCLIENT_Close_def)
  with w' show "\<exists>w'. IOTCLIENT_Close (Some a) w = Some (EOK, w') \<and>
            heap w' = (heap w)(a := None) \<and>
            (\<forall>n. fifoName c = Some n \<longrightarrow> n \<notin> set (fifos w')) \<and>
            IOTCLIENT_Close (Some a) w' = None"
    by blast
next
  assume "heap w a = None"
  then show "IOTCLIENT_Close (Some a) w = None"
    by (simp add: IOTCLIENT_Close_def)
next
  fix w' assume r: "IOTCLIENT_Close h w = Some (EINVAL, w')"
  show "h = None"
  proof (cases h)
    case None
    then show ?thesis .
  next
    case (Some a)
    show ?thesis
    proof (cases "heap w a")
      case None
      with Some r show ?thesis by (simp add: IOTCLIENT_Close_def)
    next
      case (Some c)
      from Close_live [OF this] r \<open>h = Some a\<close> show ?thesis by auto
    qed
  qed
qed

text \<open>The live handle of \<open>live_world\<close>, whose FIFO was removed from outside.\<close>

theorem Close_result_witness:
  "heap live_world 1 = Some tx64 \<and> fifoName tx64 = Some ''/tmp/iothub_1234'' \<and>
   ''/tmp/iothub_1234'' \<notin> set (fifos live_world) \<and>
   (\<exists>w'. IOTCLIENT_Close (Some 1) live_world = Some (EOK, w') \<and> heap w' 1 = None \<and>
         IOTCLIENT_Close (Some 1) w' = None)"
proof -
  have live: "heap live_world 1 = Some tx64"
    and nm: "fifoName tx64 = Some ''/tmp/iothub_1234''"
    and gone: "''/tmp/iothub_1234'' \<notin> set (fifos live_world)"
    by (simp_all add: live_world_def tx64_def zero_client_def)
  from Close_result [of live_world 1 tx64 "Some 1"] live
  obtain w' where "IOTCLIENT_Close (Some 1) live_world = Some (EOK, w')"
    "heap w' = (heap live_world)(1 := None)" "IOTCLIENT_Close (Some 1) w' = None"
    by blast
  then have "IOTCLIENT_Close (Some 1) live_world = Some (EOK, w') \<and> heap w' 1 = None \<and>
         IOTCLIENT_Close (Some 1) w' = None"
    by simp
  with live nm gone show ?thesis by blast
qed

text \<open>
  Claim C7 as it is written fails: on \<open>live_world\<close> the first \<^verbatim>\<open>IOTCLIENT_Close\<close> succeeds and
  the second call on the same handle has no result, since the first freed the object.
\<close>

theorem Close_twice_counterexample:
  "map_option fst (IOTCLIENT_Close (Some 1) live_world) = Some EOK \<and>
   Close_twice (Some 1) live_world = None"
  by (simp add: Close_twice_def IOTCLIENT_Close_def live_world_def tx64_def zero_client_def
      iotclient_DestroyFIFO_def iotclient_DestroyTxMessageQueue_def
      iotclient_DestroyRxMessageQueue_def sys_unlink_def sys_mq_close_def Let_def)

end
